theory Spec2Isabelle
  imports
    Main
    "HOL-Library.Multiset"
    "HOL-Library.Char_ord"
    "HOL-Library.List_Lexorder"
begin

section \<open>The interaction service of the drug platform\<close>

text \<open>
  A shallow embedding of \<^verbatim>\<open>InteractionService.get_interactions\<close>
  (\<^verbatim>\<open>domain/services/interaction_service.py\<close>). Python \<^verbatim>\<open>str\<close> is
  \<^typ>\<open>string\<close>, ordered lexicographically as Python orders strings; Python \<^verbatim>\<open>int\<close>
  is \<^typ>\<open>int\<close>; an optional attribute is an \<^typ>\<open>'a option\<close>.
\<close>

subsection \<open>Data model\<close>

text \<open>
  \<^verbatim>\<open>DrugItem\<close>: the service reads \<^verbatim>\<open>name\<close> and \<^verbatim>\<open>tpu_code\<close> and writes
  \<^verbatim>\<open>subs_code\<close>. The class itself lives in \<^verbatim>\<open>domain.models\<close>; the hierarchy codes
  stand for the remaining attributes, which only the helpers touch. The service mutates
  the entries in place; here an entry is a value and each step returns the lists as it
  leaves them, which is the same as long as no object occurs twice in the request (the
  entries of a parsed request are separate objects).
\<close>

record drug_item =
  name :: "string option"
  subs_code :: "string option"
  tpu_code :: "string option"
  hierarchy_codes :: "string list"

record drug_payload =
  drug_currents :: "drug_item list"
  drug_histories :: "drug_item list"

text \<open>
  One value of \<^verbatim>\<open>detail_map\<close>. The service reads it with \<^verbatim>\<open>entry.get("subs_codes")\<close>,
  so the key may be missing (\<^const>\<open>None\<close>); an empty dictionary behaves like a missing key.
\<close>

record detail_record =
  subs_codes :: "string list option"
  display :: "(string \<times> string) list"

text \<open>One raw contrast record: the dictionary keys the service reads.\<close>

record 'v interaction_record =
  sub1_id :: string
  sub1_name :: 'v
  sub2_id :: string
  sub2_name :: 'v
  rec_interaction_detail_en :: 'v
  rec_interaction_detail_th :: 'v
  rec_onset :: 'v
  rec_severity :: 'v
  rec_documentation :: 'v
  rec_significance :: 'v
  rec_management :: 'v
  rec_discussion :: 'v
  rec_reference :: 'v

text \<open>
  \<^verbatim>\<open>ContrastItem\<close>: the two keyword groups that \<^verbatim>\<open>fill_codes\<close> returns are kept as
  two fields of an abstract type; a substance display entry
  \<^verbatim>\<open>{"code": c, "name": n}\<close> is the pair \<open>(c, n)\<close>.
\<close>

record ('f, 'v) contrast_item =
  ref_id :: string
  input_fields :: 'f
  contrast_fields :: 'f
  contrast_type :: int
  interaction_detail_en :: 'v
  interaction_detail_th :: 'v
  onset :: 'v
  severity :: 'v
  documentation :: 'v
  significance :: 'v
  management :: 'v
  discussion :: 'v
  reference :: 'v
  input_substances :: "(string \<times> 'v) list"
  contrast_substances :: "(string \<times> 'v) list"

record pagination =
  page :: int
  row :: int
  total :: int

record ('f, 'v) page_response =
  pagination :: pagination
  page_data :: "('f, 'v) contrast_item list"

record ('f, 'v) drugs_response =
  status :: bool
  code :: int
  message :: string
  data :: "('f, 'v) page_response"

text \<open>A store call that raises returns \<open>Inl\<close>; the service catches nothing.\<close>

datatype store_error = StoreError string

text \<open>
  What the service is given: the four methods of \<^verbatim>\<open>DrugRepository\<close>, the three helpers
  of \<^verbatim>\<open>utils.helpers\<close> and \<^verbatim>\<open>uuid.uuid4\<close>. None of them is defined in the service's
  file, so each is a parameter. \<^verbatim>\<open>query_details\<close> receives \<^verbatim>\<open>list(curr | hist)\<close>, a
  list in no specified order, hence a set here. \<^verbatim>\<open>enrich_items\<close> queries the store
  through \<^verbatim>\<open>repo.driver\<close> and returns the entries as it leaves them.
  \<open>uuid4 k\<close> is the string of the \<open>k\<close>-th call of \<^verbatim>\<open>str(uuid.uuid4())\<close>.
\<close>

record ('f, 'v) env =
  resolve_names :: "string list \<Rightarrow> store_error + (string \<rightharpoonup> string)"
  query_details :: "string set \<Rightarrow> store_error + (string \<rightharpoonup> detail_record)"
  fetch_external_status :: "string list \<Rightarrow> store_error + (string \<rightharpoonup> bool)"
  fetch_contrasts :: "(string \<times> string) list \<Rightarrow> store_error + 'v interaction_record list"
  codes_from_item :: "drug_item \<Rightarrow> string list"
  fill_codes :: "string \<Rightarrow> drug_item \<Rightarrow> 'f"
  enrich_items :: "(string \<rightharpoonup> detail_record) \<Rightarrow> drug_item list \<Rightarrow> store_error + drug_item list"
  uuid4 :: "nat \<Rightarrow> string"

subsection \<open>Python idioms\<close>

text \<open>Truthiness of an optional string: \<^verbatim>\<open>None\<close> and \<^verbatim>\<open>""\<close> are false.\<close>

definition truthy :: "string option \<Rightarrow> bool" where
  "truthy s = (case s of None \<Rightarrow> False | Some t \<Rightarrow> t \<noteq> [])"

text \<open>\<^verbatim>\<open>d.get(k, [])\<close> on a dictionary kept as an association list.\<close>

definition get_items :: "('k \<times> 'a list) list \<Rightarrow> 'k \<Rightarrow> 'a list" where
  "get_items d k = (case map_of d k of None \<Rightarrow> [] | Some xs \<Rightarrow> xs)"

text \<open>\<^verbatim>\<open>d.setdefault(k, []).append(v)\<close>; a new key goes to the end.\<close>

fun setdefault_append :: "('k \<times> 'a list) list \<Rightarrow> 'k \<Rightarrow> 'a \<Rightarrow> ('k \<times> 'a list) list" where
  "setdefault_append [] k v = [(k, [v])]"
| "setdefault_append ((k', vs) # d) k v =
     (if k' = k then (k', vs @ [v]) # d else (k', vs) # setdefault_append d k v)"

text \<open>\<^verbatim>\<open>itertools.combinations(xs, 2)\<close>.\<close>

fun combinations2 :: "'a list \<Rightarrow> ('a \<times> 'a) list" where
  "combinations2 [] = []"
| "combinations2 (x # xs) = map (Pair x) xs @ combinations2 xs"

text \<open>\<^verbatim>\<open>xs[start:stop]\<close> with CPython's adjustment of the two indices.\<close>

definition py_slice :: "'a list \<Rightarrow> int \<Rightarrow> int \<Rightarrow> 'a list" where
  "py_slice xs start stop =
     (let n = int (length xs);
          s = (if start < 0 then max 0 (start + n) else min start n);
          e = (if stop < 0 then max 0 (stop + n) else min stop n)
      in take (nat (e - s)) (drop (nat s) xs))"

subsection \<open>Step 1: resolving history names\<close>

definition names_to_resolve :: "('f, 'v) env \<Rightarrow> drug_item list \<Rightarrow> string list" where
  "names_to_resolve E hist =
     List.map_filter
       (\<lambda>it. if codes_from_item E it = [] \<and> truthy (name it) then name it else None) hist"

text \<open>The body of the second loop: \<^verbatim>\<open>if it.name in name_map: it.subs_code = ...\<close>.\<close>

definition set_resolved :: "(string \<rightharpoonup> string) \<Rightarrow> drug_item \<Rightarrow> drug_item" where
  "set_resolved name_map it =
     (case name it of
        None \<Rightarrow> it
      | Some n \<Rightarrow> (case name_map n of None \<Rightarrow> it | Some s \<Rightarrow> it\<lparr>subs_code := Some s\<rparr>))"

definition resolve_history_names ::
  "('f, 'v) env \<Rightarrow> drug_payload \<Rightarrow> store_error + drug_payload" where
  "resolve_history_names E payload =
     (let names = names_to_resolve E (drug_histories payload) in
      if names = [] then Inr payload
      else (case resolve_names E names of
              Inl err \<Rightarrow> Inl err
            | Inr name_map \<Rightarrow>
                Inr (payload\<lparr>drug_histories := map (set_resolved name_map) (drug_histories payload)\<rparr>)))"

subsection \<open>Steps 2 and 3: collecting codes, detail lookup, enrichment\<close>

definition all_codes :: "('f, 'v) env \<Rightarrow> drug_payload \<Rightarrow> string set" where
  "all_codes E payload =
     set (concat (map (codes_from_item E) (drug_currents payload)))
     \<union> set (concat (map (codes_from_item E) (drug_histories payload)))"

definition enrich_payload ::
  "('f, 'v) env \<Rightarrow> (string \<rightharpoonup> detail_record) \<Rightarrow> drug_payload \<Rightarrow> store_error + drug_payload" where
  "enrich_payload E detail_map payload =
     (case enrich_items E detail_map (drug_currents payload) of
        Inl err \<Rightarrow> Inl err
      | Inr cs \<Rightarrow>
          (case enrich_items E detail_map (drug_histories payload) of
             Inl err \<Rightarrow> Inl err
           | Inr hs \<Rightarrow> Inr (payload\<lparr>drug_currents := cs, drug_histories := hs\<rparr>)))"

subsection \<open>Step 4: the substance index\<close>

text \<open>The loop over one entry's codes, with its \<^verbatim>\<open>break\<close>.\<close>

fun index_item ::
  "(string \<rightharpoonup> detail_record) \<Rightarrow> drug_item \<Rightarrow> string list
     \<Rightarrow> (string \<times> drug_item list) list \<Rightarrow> (string \<times> drug_item list) list" where
  "index_item detail_map itm [] d = d"
| "index_item detail_map itm (c # cs) d =
     (case detail_map c of
        None \<Rightarrow> index_item detail_map itm cs d
      | Some entry \<Rightarrow>
          (case subs_codes entry of
             None \<Rightarrow> index_item detail_map itm cs d
           | Some sids \<Rightarrow>
               if sids = [] then index_item detail_map itm cs d
               else fold (\<lambda>sid d'. setdefault_append d' sid itm) sids d))"

definition build_subs_to_items ::
  "('f, 'v) env \<Rightarrow> (string \<rightharpoonup> detail_record) \<Rightarrow> drug_payload \<Rightarrow> (string \<times> drug_item list) list" where
  "build_subs_to_items E detail_map payload =
     fold (\<lambda>itm d. index_item detail_map itm (codes_from_item E itm) d)
       (drug_currents payload @ drug_histories payload) []"

subsection \<open>Step 5: the pairs\<close>

definition generate_pairs :: "(string \<times> drug_item list) list \<Rightarrow> (string \<times> string) list" where
  "generate_pairs subs_to_items = combinations2 (sort (map fst subs_to_items))"

subsection \<open>Steps 5.5 to 5.7: the external filter\<close>

definition all_tpu_codes :: "drug_payload \<Rightarrow> string list" where
  "all_tpu_codes payload =
     List.map_filter (\<lambda>item. if truthy (tpu_code item) then tpu_code item else None)
       (drug_currents payload @ drug_histories payload)"

text \<open>The loop over \<^verbatim>\<open>all_items\<close> that clears \<^verbatim>\<open>should_include\<close> and breaks.\<close>

fun should_include :: "(string \<rightharpoonup> bool) \<Rightarrow> drug_item list \<Rightarrow> bool" where
  "should_include external_status_map [] = True"
| "should_include external_status_map (item # items) =
     (case tpu_code item of
        None \<Rightarrow> should_include external_status_map items
      | Some t \<Rightarrow>
          if t = [] then should_include external_status_map items
          else if (case external_status_map t of None \<Rightarrow> False | Some b \<Rightarrow> b) then False
          else should_include external_status_map items)"

fun filter_pairs ::
  "(string \<times> drug_item list) list \<Rightarrow> (string \<rightharpoonup> bool) \<Rightarrow> (string \<times> string) list
     \<Rightarrow> (string \<times> string) list" where
  "filter_pairs subs_to_items external_status_map [] = []"
| "filter_pairs subs_to_items external_status_map ((sid1, sid2) # pairs) =
     (if should_include external_status_map
           (get_items subs_to_items sid1 @ get_items subs_to_items sid2)
      then (sid1, sid2) # filter_pairs subs_to_items external_status_map pairs
      else filter_pairs subs_to_items external_status_map pairs)"

subsection \<open>Steps 6 and 7: contrast records and rows\<close>

text \<open>The dictionary comprehension: a later record replaces an earlier one of the same key.\<close>

definition build_pair_to_data ::
  "'v interaction_record list \<Rightarrow> (string \<times> string \<rightharpoonup> 'v interaction_record)" where
  "build_pair_to_data raw_records =
     fold (\<lambda>r m. m((sub1_id r, sub2_id r) \<mapsto> r)) raw_records Map.empty"

text \<open>
  \<^verbatim>\<open>pair_to_data.get((sid1, sid2)) or pair_to_data.get((sid2, sid1))\<close>: a record is a
  dictionary with keys, hence true.
\<close>

definition lookup_record ::
  "(string \<times> string \<rightharpoonup> 'v interaction_record) \<Rightarrow> string \<Rightarrow> string \<Rightarrow> 'v interaction_record option" where
  "lookup_record pair_to_data sid1 sid2 =
     (case pair_to_data (sid1, sid2) of
        Some r \<Rightarrow> Some r
      | None \<Rightarrow> pair_to_data (sid2, sid1))"

definition make_row ::
  "('f, 'v) env \<Rightarrow> string \<Rightarrow> 'v interaction_record \<Rightarrow> drug_item \<Rightarrow> drug_item \<Rightarrow> ('f, 'v) contrast_item" where
  "make_row E rid r in_item ct_item =
     \<lparr> ref_id = rid,
       input_fields = fill_codes E ''input'' in_item,
       contrast_fields = fill_codes E ''contrast'' ct_item,
       contrast_type = 0,
       interaction_detail_en = rec_interaction_detail_en r,
       interaction_detail_th = rec_interaction_detail_th r,
       onset = rec_onset r,
       severity = rec_severity r,
       documentation = rec_documentation r,
       significance = rec_significance r,
       management = rec_management r,
       discussion = rec_discussion r,
       reference = rec_reference r,
       input_substances = [(sub1_id r, sub1_name r)],
       contrast_substances = [(sub2_id r, sub2_name r)] \<rparr>"

text \<open>
  The loops thread the number of \<^verbatim>\<open>uuid4\<close> calls made so far together with
  \<^verbatim>\<open>rows\<close>.
\<close>

definition contrast_loop ::
  "('f, 'v) env \<Rightarrow> 'v interaction_record \<Rightarrow> drug_item \<Rightarrow> drug_item list
     \<Rightarrow> nat \<times> ('f, 'v) contrast_item list \<Rightarrow> nat \<times> ('f, 'v) contrast_item list" where
  "contrast_loop E r in_item ct_items st =
     fold (\<lambda>ct_item (n, rows). (Suc n, rows @ [make_row E (uuid4 E n) r in_item ct_item]))
       ct_items st"

definition input_loop ::
  "('f, 'v) env \<Rightarrow> 'v interaction_record \<Rightarrow> drug_item list \<Rightarrow> drug_item list
     \<Rightarrow> nat \<times> ('f, 'v) contrast_item list \<Rightarrow> nat \<times> ('f, 'v) contrast_item list" where
  "input_loop E r in_items ct_items st =
     fold (\<lambda>in_item. contrast_loop E r in_item ct_items) in_items st"

definition rows_for_pair ::
  "('f, 'v) env \<Rightarrow> (string \<times> drug_item list) list \<Rightarrow> (string \<times> string \<rightharpoonup> 'v interaction_record)
     \<Rightarrow> string \<times> string \<Rightarrow> nat \<times> ('f, 'v) contrast_item list \<Rightarrow> nat \<times> ('f, 'v) contrast_item list" where
  "rows_for_pair E subs_to_items pair_to_data p st =
     (case lookup_record pair_to_data (fst p) (snd p) of
        None \<Rightarrow> st
      | Some r \<Rightarrow>
          input_loop E r (get_items subs_to_items (fst p)) (get_items subs_to_items (snd p)) st)"

definition assemble_rows ::
  "('f, 'v) env \<Rightarrow> (string \<times> drug_item list) list \<Rightarrow> 'v interaction_record list
     \<Rightarrow> (string \<times> string) list \<Rightarrow> ('f, 'v) contrast_item list" where
  "assemble_rows E subs_to_items raw_records filtered_pairs =
     snd (fold (rows_for_pair E subs_to_items (build_pair_to_data raw_records))
            filtered_pairs (0, []))"

subsection \<open>Step 8: pagination and the envelope\<close>

definition paginate ::
  "('f, 'v) contrast_item list \<Rightarrow> int \<Rightarrow> int \<Rightarrow> ('f, 'v) drugs_response" where
  "paginate rows page_no row_no =
     (let total_rows = int (length rows);
          start = (page_no - 1) * row_no;
          stop = start + row_no;
          slice = py_slice rows start stop
      in \<lparr> status = True, code = 200, message = ''get success'',
           data = \<lparr> pagination = \<lparr> page = page_no, row = int (length slice), total = total_rows \<rparr>,
                    page_data = slice \<rparr> \<rparr>)"

subsection \<open>The whole call\<close>

text \<open>Steps 1 to 4: the payload as enriched, with the detail map.\<close>

definition prepare ::
  "('f, 'v) env \<Rightarrow> drug_payload \<Rightarrow> store_error + (drug_payload \<times> (string \<times> drug_item list) list)" where
  "prepare E payload =
     (case resolve_history_names E payload of
        Inl err \<Rightarrow> Inl err
      | Inr p1 \<Rightarrow>
          (case query_details E (all_codes E p1) of
             Inl err \<Rightarrow> Inl err
           | Inr detail_map \<Rightarrow>
               (case enrich_payload E detail_map p1 of
                  Inl err \<Rightarrow> Inl err
                | Inr p2 \<Rightarrow> Inr (p2, build_subs_to_items E detail_map p2))))"

text \<open>Step 5 on top of it: the pairs before the filter.\<close>

definition candidate_pairs ::
  "('f, 'v) env \<Rightarrow> drug_payload \<Rightarrow> store_error + (string \<times> string) list" where
  "candidate_pairs E payload =
     (case prepare E payload of
        Inl err \<Rightarrow> Inl err
      | Inr (p2, subs_to_items) \<Rightarrow> Inr (generate_pairs subs_to_items))"

text \<open>Steps 1 to 7: the rows before the slice.\<close>

definition assembled_rows ::
  "('f, 'v) env \<Rightarrow> drug_payload \<Rightarrow> store_error + ('f, 'v) contrast_item list" where
  "assembled_rows E payload =
     (case prepare E payload of
        Inl err \<Rightarrow> Inl err
      | Inr (p2, subs_to_items) \<Rightarrow>
          (case fetch_external_status E (all_tpu_codes p2) of
             Inl err \<Rightarrow> Inl err
           | Inr external_status_map \<Rightarrow>
               (let filtered_pairs =
                      filter_pairs subs_to_items external_status_map (generate_pairs subs_to_items)
                in case fetch_contrasts E filtered_pairs of
                     Inl err \<Rightarrow> Inl err
                   | Inr raw_records \<Rightarrow>
                       Inr (assemble_rows E subs_to_items raw_records filtered_pairs))))"

definition get_interactions ::
  "('f, 'v) env \<Rightarrow> drug_payload \<Rightarrow> int \<Rightarrow> int \<Rightarrow> store_error + ('f, 'v) drugs_response" where
  "get_interactions E payload page_no row_no =
     (case assembled_rows E payload of
        Inl err \<Rightarrow> Inl err
      | Inr rows \<Rightarrow> Inr (paginate rows page_no row_no))"

subsection \<open>Definitions used to state the properties\<close>

text \<open>
  The condition the indexer tests on one code:
  \<^verbatim>\<open>entry and entry.get("subs_codes")\<close>.
\<close>

definition has_substances :: "(string \<rightharpoonup> detail_record) \<Rightarrow> string \<Rightarrow> bool" where
  "has_substances detail_map c =
     (case detail_map c of
        None \<Rightarrow> False
      | Some entry \<Rightarrow> (case subs_codes entry of None \<Rightarrow> False | Some sids \<Rightarrow> sids \<noteq> []))"

text \<open>
  The substance index as the specification words it: the substance codes of the first code,
  in the order of the extracted codes, whose detail record has a non-empty substance-code
  list; no substance at all when no code has one. The loop \<^const>\<open>index_item\<close> is compared
  with this definition.
\<close>

definition winning_sids :: "(string \<rightharpoonup> detail_record) \<Rightarrow> string list \<Rightarrow> string list" where
  "winning_sids detail_map codes =
     (case find (has_substances detail_map) codes of
        None \<Rightarrow> []
      | Some c \<Rightarrow>
          (case detail_map c of
             None \<Rightarrow> []
           | Some entry \<Rightarrow> (case subs_codes entry of None \<Rightarrow> [] | Some sids \<Rightarrow> sids)))"

text \<open>The keys of the index are distinct and each key holds at least one entry.\<close>

definition index_ok :: "('k \<times> 'a list) list \<Rightarrow> bool" where
  "index_ok d = (distinct (map fst d) \<and> (\<forall>k. k \<in> set (map fst d) \<longleftrightarrow> get_items d k \<noteq> []))"

text \<open>The order of the pairs that sorting the identifiers induces.\<close>

definition pair_less :: "('a::linorder) \<times> 'a \<Rightarrow> 'a \<times> 'a \<Rightarrow> bool" where
  "pair_less p q = (fst p < fst q \<or> (fst p = fst q \<and> snd p < snd q))"

text \<open>
  An entry is external when it has a trade-unit code (a non-empty string) that the status
  map sends to \<^verbatim>\<open>True\<close>.
\<close>

definition external_entry :: "(string \<rightharpoonup> bool) \<Rightarrow> drug_item \<Rightarrow> bool" where
  "external_entry external_status_map item =
     (case tpu_code item of
        None \<Rightarrow> False
      | Some t \<Rightarrow> t \<noteq> [] \<and> external_status_map t = Some True)"

text \<open>The store returned the record under the key \<open>(a, b)\<close>.\<close>

definition keyed_by :: "'v interaction_record \<Rightarrow> string \<Rightarrow> string \<Rightarrow> bool" where
  "keyed_by r a b = (sub1_id r = a \<and> sub2_id r = b)"

text \<open>
  A call that the request \<open>payload\<close> makes raises \<open>err\<close>: the six calls of
  \<^verbatim>\<open>get_interactions\<close> in their order, each with the argument the service passes, and
  each made only when the calls before it returned. The name resolution is called only when
  there is a name to resolve.
\<close>

definition request_call_raises :: "('f, 'v) env \<Rightarrow> drug_payload \<Rightarrow> store_error \<Rightarrow> bool" where
  "request_call_raises E payload err =
     ((names_to_resolve E (drug_histories payload) \<noteq> []
         \<and> resolve_names E (names_to_resolve E (drug_histories payload)) = Inl err)
      \<or> (\<exists>p1. resolve_history_names E payload = Inr p1
            \<and> (query_details E (all_codes E p1) = Inl err
               \<or> (\<exists>detail_map. query_details E (all_codes E p1) = Inr detail_map
                     \<and> (enrich_items E detail_map (drug_currents p1) = Inl err
                        \<or> (\<exists>cs. enrich_items E detail_map (drug_currents p1) = Inr cs
                              \<and> enrich_items E detail_map (drug_histories p1) = Inl err)
                        \<or> (\<exists>p2. enrich_payload E detail_map p1 = Inr p2
                              \<and> (fetch_external_status E (all_tpu_codes p2) = Inl err
                                 \<or> (\<exists>external_status_map.
                                       fetch_external_status E (all_tpu_codes p2)
                                         = Inr external_status_map
                                       \<and> fetch_contrasts E
                                            (filter_pairs
                                               (build_subs_to_items E detail_map p2)
                                               external_status_map
                                               (generate_pairs (build_subs_to_items E detail_map p2)))
                                          = Inl err))))))))"

text \<open>
  What the rows \<open>new\<close> that the assembler emits for the pair \<open>p\<close> must be. With no
  record of the batch keyed by either ordering of the pair there is no row. Otherwise there
  is a record \<open>r\<close> of the batch keyed by one of the orderings, and \<open>new\<close> holds exactly
  one row for each combination of a contributing entry of the first identifier with one of
  the second, in that order: the input fields come from the first entry, the contrast fields
  from the second, \<^verbatim>\<open>contrast_type\<close> is 0, the interaction fields are those of \<open>r\<close>, and
  the two substance lists have the one element that \<open>r\<close> records.
\<close>

definition cross_join_block ::
  "('f, 'v) env \<Rightarrow> (string \<times> drug_item list) list \<Rightarrow> 'v interaction_record list
     \<Rightarrow> string \<times> string \<Rightarrow> ('f, 'v) contrast_item list \<Rightarrow> bool" where
  "cross_join_block E d raw p new =
     (((\<forall>r \<in> set raw. \<not> keyed_by r (fst p) (snd p) \<and> \<not> keyed_by r (snd p) (fst p)) \<longrightarrow> new = [])
      \<and> ((\<exists>r \<in> set raw. keyed_by r (fst p) (snd p) \<or> keyed_by r (snd p) (fst p))
         \<longrightarrow> (\<exists>r \<in> set raw. (keyed_by r (fst p) (snd p) \<or> keyed_by r (snd p) (fst p))
               \<and> length new = length (get_items d (fst p)) * length (get_items d (snd p))
               \<and> map (\<lambda>x. (input_fields x, contrast_fields x)) new
                   = map (\<lambda>(in_item, ct_item).
                            (fill_codes E ''input'' in_item, fill_codes E ''contrast'' ct_item))
                       (List.product (get_items d (fst p)) (get_items d (snd p)))
               \<and> (\<forall>x \<in> set new.
                     contrast_type x = 0
                     \<and> interaction_detail_en x = rec_interaction_detail_en r
                     \<and> interaction_detail_th x = rec_interaction_detail_th r
                     \<and> onset x = rec_onset r
                     \<and> severity x = rec_severity r
                     \<and> documentation x = rec_documentation r
                     \<and> significance x = rec_significance r
                     \<and> management x = rec_management r
                     \<and> discussion x = rec_discussion r
                     \<and> reference x = rec_reference r
                     \<and> input_substances x = [(sub1_id r, sub1_name r)]
                     \<and> contrast_substances x = [(sub2_id r, sub2_name r)]))))"

text \<open>
  The invariant of the assembly loops: the \<open>k\<close>-th row carries the result of the
  \<open>k\<close>-th \<^verbatim>\<open>uuid4\<close> call.
\<close>

definition ids_fresh :: "('f, 'v) env \<Rightarrow> nat \<times> ('f, 'v) contrast_item list \<Rightarrow> bool" where
  "ids_fresh E st = (map ref_id (snd st) = map (uuid4 E) [0..<fst st])"

text \<open>Two payloads hold the same entries, list by list, up to their order.\<close>

definition payload_perm :: "drug_payload \<Rightarrow> drug_payload \<Rightarrow> bool" where
  "payload_perm p q =
     (mset (drug_currents p) = mset (drug_currents q)
      \<and> mset (drug_histories p) = mset (drug_histories q))"

text \<open>
  Modelled from the spec: \<^verbatim>\<open>codes_from_item\<close> is defined in \<^verbatim>\<open>utils.helpers\<close>, which
  is not part of the service's file. The specification gives the codes of an entry as its
  explicit substance code, its trade-unit code and any hierarchy code already known, in that
  order. The general results below hold for every code extractor; this one only serves the
  concrete requests.
\<close>

definition codes_from_item_spec :: "drug_item \<Rightarrow> string list" where
  "codes_from_item_spec it =
     (case subs_code it of None \<Rightarrow> [] | Some s \<Rightarrow> if s = [] then [] else [s])
     @ (case tpu_code it of None \<Rightarrow> [] | Some t \<Rightarrow> if t = [] then [] else [t])
     @ hierarchy_codes it"

text \<open>A concrete store, three substances and a small request, used to run the model.\<close>

definition demo_record :: "string \<Rightarrow> string \<Rightarrow> string \<Rightarrow> string interaction_record" where
  "demo_record a b txt =
     \<lparr> sub1_id = a, sub1_name = ''name of '' @ a, sub2_id = b, sub2_name = ''name of '' @ b,
       rec_interaction_detail_en = txt, rec_interaction_detail_th = txt, rec_onset = ''rapid'',
       rec_severity = ''major'', rec_documentation = ''good'', rec_significance = ''1'',
       rec_management = ''monitor'', rec_discussion = ''none'', rec_reference = ''ref'' \<rparr>"

definition demo_records :: "string interaction_record list" where
  "demo_records = [demo_record ''S1'' ''S2'' ''x'', demo_record ''S3'' ''S1'' ''y'']"

definition demo_name_map :: "string \<rightharpoonup> string" where
  "demo_name_map = [''aspirin'' \<mapsto> ''S3'']"

definition demo_detail_map :: "string \<rightharpoonup> detail_record" where
  "demo_detail_map =
     [''T1'' \<mapsto> \<lparr>subs_codes = Some [''S1''], display = []\<rparr>,
      ''S1'' \<mapsto> \<lparr>subs_codes = Some [''S1''], display = []\<rparr>,
      ''S2'' \<mapsto> \<lparr>subs_codes = Some [''S2''], display = []\<rparr>,
      ''S3'' \<mapsto> \<lparr>subs_codes = Some [''S3''], display = []\<rparr>]"

definition demo_env :: "(string list, string) env" where
  "demo_env =
     \<lparr> resolve_names = (\<lambda>names. Inr demo_name_map),
       query_details = (\<lambda>codes. Inr demo_detail_map),
       fetch_external_status = (\<lambda>tpus. Inr [''T9'' \<mapsto> True]),
       fetch_contrasts = (\<lambda>pairs. Inr demo_records),
       codes_from_item = codes_from_item_spec,
       fill_codes = (\<lambda>role it. role # codes_from_item_spec it),
       enrich_items = (\<lambda>detail_map items. Inr (map (\<lambda>it. it) items)),
       uuid4 = (\<lambda>k. replicate (Suc k) CHR ''u'') \<rparr>"

text \<open>The same store with the contrast lookup out of service.\<close>

definition failing_env :: "(string list, string) env" where
  "failing_env = demo_env\<lparr>fetch_contrasts := (\<lambda>pairs. Inl (StoreError ''down''))\<rparr>"

definition warfarin :: drug_item where
  "warfarin = \<lparr>name = Some ''warfarin'', subs_code = None, tpu_code = Some ''T1'', hierarchy_codes = []\<rparr>"

definition coumadin :: drug_item where
  "coumadin = \<lparr>name = Some ''coumadin'', subs_code = Some ''S1'', tpu_code = None, hierarchy_codes = []\<rparr>"

definition ibuprofen :: drug_item where
  "ibuprofen = \<lparr>name = Some ''ibuprofen'', subs_code = Some ''S2'', tpu_code = None, hierarchy_codes = []\<rparr>"

definition aspirin :: drug_item where
  "aspirin = \<lparr>name = Some ''aspirin'', subs_code = None, tpu_code = None, hierarchy_codes = []\<rparr>"

definition demo_payload :: drug_payload where
  "demo_payload = \<lparr> drug_currents = [warfarin, coumadin, ibuprofen], drug_histories = [aspirin] \<rparr>"

definition demo_permuted :: drug_payload where
  "demo_permuted = \<lparr> drug_currents = [ibuprofen, warfarin, coumadin], drug_histories = [aspirin] \<rparr>"

definition demo_resolved :: drug_payload where
  "demo_resolved =
     \<lparr> drug_currents = [warfarin, coumadin, ibuprofen],
       drug_histories = [aspirin\<lparr>subs_code := Some ''S3''\<rparr>] \<rparr>"

definition demo_index :: "(string \<times> drug_item list) list" where
  "demo_index =
     [(''S1'', [warfarin, coumadin]), (''S2'', [ibuprofen]),
      (''S3'', [aspirin\<lparr>subs_code := Some ''S3''\<rparr>])]"

text \<open>
  A request whose current list and history list both hold the same code-less entry, and
  whose history also holds an entry with a substance code and the same name.
\<close>

definition cx_payload :: drug_payload where
  "cx_payload = \<lparr> drug_currents = [aspirin], drug_histories = [aspirin, ibuprofen\<lparr>name := Some ''aspirin''\<rparr>] \<rparr>"

section \<open>Evaluating the model\<close>

lemmas demo_defs = demo_env_def demo_payload_def demo_record_def demo_records_def
  codes_from_item_spec_def demo_name_map_def demo_detail_map_def warfarin_def coumadin_def
  ibuprofen_def aspirin_def demo_permuted_def demo_resolved_def demo_index_def cx_payload_def

lemmas model_defs =
  get_interactions_def assembled_rows_def candidate_pairs_def prepare_def resolve_history_names_def
  names_to_resolve_def
  set_resolved_def all_codes_def enrich_payload_def build_subs_to_items_def generate_pairs_def
  all_tpu_codes_def assemble_rows_def build_pair_to_data_def lookup_record_def make_row_def
  contrast_loop_def input_loop_def rows_for_pair_def paginate_def py_slice_def truthy_def get_items_def
  List.map_filter_def

lemma demo_prepare: "prepare demo_env demo_payload = Inr (demo_resolved, demo_index)"
  by (simp add: demo_defs model_defs)

lemma demo_rows:
  "\<exists>rows. assembled_rows demo_env demo_payload = Inr rows \<and> map ref_id rows = [''u'', ''uu'', ''uuu'', ''uuuu'']"
  by (simp add: demo_defs model_defs)

lemma demo_uuid4_inj: "inj (uuid4 demo_env)"
proof (rule injI)
  fix x y
  assume "uuid4 demo_env x = uuid4 demo_env y"
  then have "length (replicate (Suc x) CHR ''u'') = length (replicate (Suc y) CHR ''u'')"
    by (simp add: demo_env_def)
  then show "x = y" by simp
qed

section \<open>The name resolver\<close>

lemma names_to_resolve_Nil_iff:
  "names_to_resolve E hist = []
     \<longleftrightarrow> (\<forall>it \<in> set hist. \<not> (codes_from_item E it = [] \<and> truthy (name it)))"
  by (induction hist) (auto simp: names_to_resolve_def List.map_filter_def truthy_def
        split: option.splits)

text \<open>
  The request \<^const>\<open>cx_payload\<close>: the entry \<^const>\<open>aspirin\<close> has no code, a non-empty name,
  and the store resolves that name. In the history list it receives the substance code; in
  the current list it stays as it was, so entries of the current list are not resolved. The
  second history entry already has the code \<open>S2\<close> and is overwritten all the same.
\<close>

theorem name_resolver_counterexample:
  "codes_from_item demo_env aspirin = []
   \<and> name aspirin = Some ''aspirin''
   \<and> names_to_resolve demo_env (drug_histories cx_payload) = [''aspirin'']
   \<and> resolve_names demo_env [''aspirin''] = Inr demo_name_map
   \<and> demo_name_map ''aspirin'' = Some ''S3''
   \<and> codes_from_item demo_env (ibuprofen\<lparr>name := Some ''aspirin''\<rparr>) = [''S2'']
   \<and> resolve_history_names demo_env cx_payload
       = Inr \<lparr> drug_currents = [aspirin],
               drug_histories = [aspirin\<lparr>subs_code := Some ''S3''\<rparr>,
                                 ibuprofen\<lparr>name := Some ''aspirin'', subs_code := Some ''S3''\<rparr>] \<rparr>
   \<and> subs_code aspirin = None
   \<and> subs_code (ibuprofen\<lparr>name := Some ''aspirin''\<rparr>) = Some ''S2''"
  by (simp add: demo_defs model_defs)

text \<open>
  Claim C1, as the code has it: the Name Resolver (its comment reads
  \<^verbatim>\<open>Resolve any history names to SUBS IDs\<close>) works on the history list only. The store is called when some history entry lacks every code and
  has a non-empty name; \<open>name_map\<close> is its answer. Then the step raises nothing of its own,
  leaves every entry of the current list unchanged, keeps the history list's length and
  order, sets \<^verbatim>\<open>subs_code\<close> on each history entry that lacks every code, has a non-empty
  name and whose name is in \<open>name_map\<close>, and leaves unchanged each history entry whose name
  is missing or absent from \<open>name_map\<close>.
\<close>

theorem name_resolver_history_entries:
  assumes "names_to_resolve E (drug_histories payload) \<noteq> []
             \<longrightarrow> resolve_names E (names_to_resolve E (drug_histories payload)) = Inr name_map"
  shows "\<exists>payload'. resolve_history_names E payload = Inr payload'
     \<and> drug_currents payload' = drug_currents payload
     \<and> list_all2 (\<lambda>it it'.
          (\<forall>n s. codes_from_item E it = [] \<and> name it = Some n \<and> n \<noteq> [] \<and> name_map n = Some s
                 \<longrightarrow> it' = it\<lparr>subs_code := Some s\<rparr>)
          \<and> (name it = None \<or> (\<exists>n. name it = Some n \<and> name_map n = None) \<longrightarrow> it' = it))
        (drug_histories payload) (drug_histories payload')"
proof (cases "names_to_resolve E (drug_histories payload) = []")
  case True
  then have "\<forall>it \<in> set (drug_histories payload). \<not> (codes_from_item E it = [] \<and> truthy (name it))"
    by (simp add: names_to_resolve_Nil_iff)
  then have "list_all2 (\<lambda>it it'.
          (\<forall>n s. codes_from_item E it = [] \<and> name it = Some n \<and> n \<noteq> [] \<and> name_map n = Some s
                 \<longrightarrow> it' = it\<lparr>subs_code := Some s\<rparr>)
          \<and> (name it = None \<or> (\<exists>n. name it = Some n \<and> name_map n = None) \<longrightarrow> it' = it))
        (drug_histories payload) (drug_histories payload)"
    by (auto simp: list_all2_same truthy_def)
  with True show ?thesis
    by (simp add: resolve_history_names_def)
next
  case False
  with assms have r: "resolve_names E (names_to_resolve E (drug_histories payload)) = Inr name_map"
    by simp
  have "list_all2 (\<lambda>it it'.
          (\<forall>n s. codes_from_item E it = [] \<and> name it = Some n \<and> n \<noteq> [] \<and> name_map n = Some s
                 \<longrightarrow> it' = it\<lparr>subs_code := Some s\<rparr>)
          \<and> (name it = None \<or> (\<exists>n. name it = Some n \<and> name_map n = None) \<longrightarrow> it' = it))
        (drug_histories payload) (map (set_resolved name_map) (drug_histories payload))"
    by (auto simp: list_all2_map2 list_all2_same set_resolved_def)
  with False r show ?thesis
    by (simp add: resolve_history_names_def)
qed

text \<open>The same step on the demonstration request: the one history entry is resolved.\<close>

theorem name_resolver_history_entries_witness:
  "names_to_resolve demo_env (drug_histories demo_payload) = [''aspirin'']
   \<and> resolve_names demo_env [''aspirin''] = Inr demo_name_map
   \<and> demo_name_map ''aspirin'' = Some ''S3''
   \<and> (\<exists>payload'. resolve_history_names demo_env demo_payload = Inr payload'
         \<and> drug_currents payload' = drug_currents demo_payload
         \<and> drug_histories payload' = [aspirin\<lparr>subs_code := Some ''S3''\<rparr>])"
proof -
  have h: "names_to_resolve demo_env (drug_histories demo_payload) \<noteq> []
      \<longrightarrow> resolve_names demo_env (names_to_resolve demo_env (drug_histories demo_payload))
            = Inr demo_name_map"
    by (simp add: demo_env_def)
  have n: "names_to_resolve demo_env (drug_histories demo_payload) = [''aspirin'']"
    by (simp add: demo_defs model_defs)
  have a: "codes_from_item demo_env aspirin = [] \<and> name aspirin = Some ''aspirin''
      \<and> demo_name_map ''aspirin'' = Some ''S3''"
    by (simp add: demo_defs)
  from name_resolver_history_entries [OF h] obtain payload' where
    1: "resolve_history_names demo_env demo_payload = Inr payload'"
    and 2: "drug_currents payload' = drug_currents demo_payload"
    and 3: "list_all2 (\<lambda>it it'.
          (\<forall>n s. codes_from_item demo_env it = [] \<and> name it = Some n \<and> n \<noteq> [] \<and> demo_name_map n = Some s
                 \<longrightarrow> it' = it\<lparr>subs_code := Some s\<rparr>)
          \<and> (name it = None \<or> (\<exists>n. name it = Some n \<and> demo_name_map n = None) \<longrightarrow> it' = it))
        (drug_histories demo_payload) (drug_histories payload')"
    by blast
  from 3 a have "drug_histories payload' = [aspirin\<lparr>subs_code := Some ''S3''\<rparr>]"
    by (auto simp: demo_payload_def list_all2_Cons1)
  with 1 2 have "\<exists>payload'. resolve_history_names demo_env demo_payload = Inr payload'
         \<and> drug_currents payload' = drug_currents demo_payload
         \<and> drug_histories payload' = [aspirin\<lparr>subs_code := Some ''S3''\<rparr>]"
    by simp
  moreover have "resolve_names demo_env [''aspirin''] = Inr demo_name_map"
    by (simp add: demo_env_def)
  ultimately show ?thesis
    using n a by simp
qed

section \<open>The substance index\<close>

lemma get_items_setdefault_append:
  "get_items (setdefault_append d k v) k' =
     (if k' = k then get_items d k @ [v] else get_items d k')"
  by (induction d k v rule: setdefault_append.induct) (auto simp: get_items_def)

lemma keys_setdefault_append:
  "set (map fst (setdefault_append d k v)) = insert k (set (map fst d))"
  by (induction d k v rule: setdefault_append.induct) auto

lemma distinct_setdefault_append:
  "distinct (map fst d) \<Longrightarrow> distinct (map fst (setdefault_append d k v))"
proof (induction d k v rule: setdefault_append.induct)
  case (1 k v)
  then show ?case by simp
next
  case (2 k' vs d k v)
  then show ?case
    using keys_setdefault_append [of d k v] by (auto simp del: set_map)
qed

lemma index_ok_setdefault_append: "index_ok d \<Longrightarrow> index_ok (setdefault_append d k v)"
  unfolding index_ok_def
  by (simp add: distinct_setdefault_append keys_setdefault_append get_items_setdefault_append
        del: set_map)

lemma index_ok_fold_sda:
  "index_ok d \<Longrightarrow> index_ok (fold (\<lambda>sid d'. setdefault_append d' sid itm) sids d)"
  by (induction sids arbitrary: d) (simp_all add: index_ok_setdefault_append)

lemma get_items_fold_sda:
  "get_items (fold (\<lambda>sid d'. setdefault_append d' sid itm) sids d) k =
     get_items d k @ replicate (count_list sids k) itm"
  by (induction sids arbitrary: d)
     (simp_all add: get_items_setdefault_append replicate_append_same)

lemma index_item_winning:
  "index_item detail_map itm codes d =
     fold (\<lambda>sid d'. setdefault_append d' sid itm) (winning_sids detail_map codes) d"
  by (induction codes)
     (auto simp: winning_sids_def has_substances_def split: option.splits)

lemma get_items_fold_index_item:
  "get_items (fold (\<lambda>itm d. index_item detail_map itm (cfi itm) d) items d) k =
     get_items d k
     @ concat (map (\<lambda>itm. replicate (count_list (winning_sids detail_map (cfi itm)) k) itm) items)"
  by (induction items arbitrary: d)
     (simp_all add: index_item_winning get_items_fold_sda)

lemma index_ok_fold_index_item:
  "index_ok d \<Longrightarrow> index_ok (fold (\<lambda>itm d. index_item detail_map itm (cfi itm) d) items d)"
  by (induction items arbitrary: d) (simp_all add: index_item_winning index_ok_fold_sda)

lemma index_ok_Nil: "index_ok []"
  by (simp add: index_ok_def get_items_def)

lemma index_ok_build: "index_ok (build_subs_to_items E detail_map payload)"
  unfolding build_subs_to_items_def by (rule index_ok_fold_index_item [OF index_ok_Nil])

lemma get_items_build:
  "get_items (build_subs_to_items E detail_map payload) sid =
     concat (map (\<lambda>itm. replicate (count_list (winning_sids detail_map (codes_from_item E itm)) sid) itm)
               (drug_currents payload @ drug_histories payload))"
  unfolding build_subs_to_items_def
  by (simp only: get_items_fold_index_item) (simp add: get_items_def)

lemma set_get_items_build:
  "set (get_items (build_subs_to_items E detail_map payload) sid) =
     {itm \<in> set (drug_currents payload) \<union> set (drug_histories payload).
        sid \<in> set (winning_sids detail_map (codes_from_item E itm))}"
  by (auto simp: get_items_build count_list_0_iff)

lemma keys_build:
  "set (map fst (build_subs_to_items E detail_map payload)) =
     (\<Union>itm \<in> set (drug_currents payload) \<union> set (drug_histories payload).
        set (winning_sids detail_map (codes_from_item E itm)))"
proof -
  have "\<And>k. k \<in> set (map fst (build_subs_to_items E detail_map payload))
          \<longleftrightarrow> set (get_items (build_subs_to_items E detail_map payload) k) \<noteq> {}"
    using index_ok_build [of E detail_map payload] by (simp add: index_ok_def del: set_map)
  then show ?thesis
    by (auto simp only: set_get_items_build)
qed

text \<open>
  Claim C5: the index built by the loops is the one \<^const>\<open>winning_sids\<close> describes. Under
  a substance identifier the index lists, in the order of the two entry lists, each entry once
  for every occurrence of the identifier among the substance codes of the entry's first code
  that has any; so an entry is listed under \<open>sid\<close> exactly when \<open>sid\<close> is one of those.
  The last two parts spell \<^const>\<open>winning_sids\<close> out: no code with substances gives nothing,
  and the first such code decides, whatever codes follow it.
\<close>

theorem substance_index_first_code:
  "get_items (build_subs_to_items E detail_map payload) sid =
     concat (map (\<lambda>itm. replicate (count_list (winning_sids detail_map (codes_from_item E itm)) sid) itm)
               (drug_currents payload @ drug_histories payload))
   \<and> (itm \<in> set (get_items (build_subs_to_items E detail_map payload) sid)
        \<longleftrightarrow> itm \<in> set (drug_currents payload @ drug_histories payload)
            \<and> sid \<in> set (winning_sids detail_map (codes_from_item E itm)))
   \<and> (\<forall>codes. (\<forall>c \<in> set codes. \<not> has_substances detail_map c) \<longrightarrow> winning_sids detail_map codes = [])
   \<and> (\<forall>before c after sids entry.
         (\<forall>b \<in> set before. \<not> has_substances detail_map b)
         \<and> detail_map c = Some entry \<and> subs_codes entry = Some sids \<and> sids \<noteq> []
         \<longrightarrow> winning_sids detail_map (before @ c # after) = sids)"
proof (intro conjI allI impI)
  show "get_items (build_subs_to_items E detail_map payload) sid =
     concat (map (\<lambda>itm. replicate (count_list (winning_sids detail_map (codes_from_item E itm)) sid) itm)
               (drug_currents payload @ drug_histories payload))"
    by (rule get_items_build)
next
  show "itm \<in> set (get_items (build_subs_to_items E detail_map payload) sid)
        \<longleftrightarrow> itm \<in> set (drug_currents payload @ drug_histories payload)
            \<and> sid \<in> set (winning_sids detail_map (codes_from_item E itm))"
    by (simp add: set_get_items_build)
next
  fix codes
  assume "\<forall>c \<in> set codes. \<not> has_substances detail_map c"
  then have "find (has_substances detail_map) codes = None"
    by (simp add: find_None_iff)
  then show "winning_sids detail_map codes = []"
    by (simp add: winning_sids_def)
next
  fix before c after sids entry
  assume a: "(\<forall>b \<in> set before. \<not> has_substances detail_map b)
         \<and> detail_map c = Some entry \<and> subs_codes entry = Some sids \<and> sids \<noteq> []"
  then have "has_substances detail_map c"
    by (simp add: has_substances_def)
  with a have "find (has_substances detail_map) (before @ c # after) = Some c"
    by (induction before) simp_all
  with a show "winning_sids detail_map (before @ c # after) = sids"
    by (simp add: winning_sids_def)
qed

text \<open>The two entries of \<open>S1\<close>; the unresolved entry is in no list.\<close>

theorem substance_index_first_code_witness:
  "get_items (build_subs_to_items demo_env demo_detail_map demo_resolved) ''S1'' = [warfarin, coumadin]
   \<and> winning_sids demo_detail_map (codes_from_item demo_env coumadin) = [''S1'']
   \<and> aspirin \<notin> set (get_items (build_subs_to_items demo_env demo_detail_map demo_payload) ''S3'')"
proof -
  have w: "winning_sids demo_detail_map (codes_from_item demo_env warfarin) = [''S1'']"
    "winning_sids demo_detail_map (codes_from_item demo_env coumadin) = [''S1'']"
    "winning_sids demo_detail_map (codes_from_item demo_env ibuprofen) = [''S2'']"
    "winning_sids demo_detail_map (codes_from_item demo_env (aspirin\<lparr>subs_code := Some ''S3''\<rparr>)) = [''S3'']"
    "winning_sids demo_detail_map (codes_from_item demo_env aspirin) = []"
    by (simp_all add: demo_defs winning_sids_def has_substances_def)
  have 1: "get_items (build_subs_to_items demo_env demo_detail_map demo_resolved) ''S1'' = [warfarin, coumadin]"
    using substance_index_first_code [of demo_env demo_detail_map demo_resolved "''S1''"]
    by (simp add: w demo_resolved_def)
  have 3: "aspirin \<notin> set (get_items (build_subs_to_items demo_env demo_detail_map demo_payload) ''S3'')"
    using substance_index_first_code [where itm = aspirin and E = demo_env and detail_map = demo_detail_map
        and payload = demo_payload and sid = "''S3''"]
    by (simp add: w)
  from 1 w(2) 3 show ?thesis by simp
qed

section \<open>The pairs\<close>

lemma set_combinations2:
  "set (combinations2 xs) \<subseteq> set xs \<times> set xs"
  by (induction xs) auto

lemma combinations2_sorted:
  "sorted xs \<Longrightarrow> distinct xs \<Longrightarrow>
     set (combinations2 xs) = {(a, b). a \<in> set xs \<and> b \<in> set xs \<and> a < b}"
proof (induction xs)
  case Nil
  then show ?case by simp
next
  case (Cons x xs)
  then have "\<And>y. y \<in> set xs \<Longrightarrow> x < y"
    by (auto simp: le_less)
  with Cons show ?case
    by (auto simp: image_iff)
qed

lemma distinct_combinations2: "distinct xs \<Longrightarrow> distinct (combinations2 xs)"
proof (induction xs)
  case Nil
  then show ?case by simp
next
  case (Cons x xs)
  have "inj_on (Pair x) (set xs)" by (simp add: inj_on_def)
  with Cons show ?case
    using set_combinations2 [of xs] by (auto simp: distinct_map)
qed

lemma sorted_wrt_combinations2:
  "sorted xs \<Longrightarrow> distinct xs \<Longrightarrow> sorted_wrt pair_less (combinations2 xs)"
proof (induction xs)
  case Nil
  then show ?case by simp
next
  case (Cons x xs)
  then have lt: "\<And>y. y \<in> set xs \<Longrightarrow> x < y"
    by (auto simp: le_less)
  have a: "sorted_wrt pair_less (map (Pair x) xs)"
  proof -
    from Cons.prems have "sorted_wrt (<) xs"
      by (simp add: strict_sorted_iff)
    then show ?thesis
      by (simp add: sorted_wrt_map pair_less_def)
  qed
  have b: "\<And>p q. p \<in> set (map (Pair x) xs) \<Longrightarrow> q \<in> set (combinations2 xs) \<Longrightarrow> pair_less p q"
    using set_combinations2 [of xs] lt by (auto simp: pair_less_def)
  from Cons a b show ?case
    by (simp add: sorted_wrt_append)
qed

lemma sort_keys_build:
  "sort (map fst (build_subs_to_items E detail_map payload))
     = sorted_list_of_set {s. get_items (build_subs_to_items E detail_map payload) s \<noteq> []}"
proof -
  let ?d = "build_subs_to_items E detail_map payload"
  have ok: "index_ok ?d" by (rule index_ok_build)
  then have "{s. get_items ?d s \<noteq> []} = set (map fst ?d)"
    by (auto simp: index_ok_def simp del: set_map)
  moreover from ok have "distinct (map fst ?d)"
    by (simp add: index_ok_def)
  ultimately show ?thesis
    by (simp only: sorted_list_of_set_sort_remdups distinct_remdups_id)
qed

text \<open>
  Claim C6: the pairs before the filter are the 2-combinations of the sorted list of the
  identifiers that have a contributing entry. A pair \<open>(a, b)\<close> is in the list exactly
  when \<open>a < b\<close> and both have a contributing entry; one of \<open>(a, b)\<close>, \<open>(b, a)\<close> is in
  the list exactly when \<open>a \<noteq> b\<close> and both have one; no pair is a self-pair, no pair occurs
  twice or in both orientations, and the list is strictly increasing in the order of the
  sorted identifiers.
\<close>

theorem pairs_are_combinations:
  fixes E :: "('f, 'v) env"
  shows "let d = build_subs_to_items E detail_map payload; pairs = generate_pairs d in
     pairs = combinations2 (sorted_list_of_set {s. get_items d s \<noteq> []})
     \<and> (\<forall>a b. (a, b) \<in> set pairs \<longleftrightarrow> a < b \<and> get_items d a \<noteq> [] \<and> get_items d b \<noteq> [])
     \<and> (\<forall>a b. ((a, b) \<in> set pairs \<or> (b, a) \<in> set pairs)
                 \<longleftrightarrow> a \<noteq> b \<and> get_items d a \<noteq> [] \<and> get_items d b \<noteq> [])
     \<and> (\<forall>a. (a, a) \<notin> set pairs)
     \<and> (\<forall>a b. (a, b) \<in> set pairs \<longrightarrow> (b, a) \<notin> set pairs)
     \<and> distinct pairs
     \<and> sorted_wrt pair_less pairs"
proof -
  let ?d = "build_subs_to_items E detail_map payload"
  let ?keys = "sort (map fst ?d)"
  have ok: "index_ok ?d" by (rule index_ok_build)
  have s: "sorted ?keys" by simp
  have di: "distinct ?keys" using ok by (simp add: index_ok_def)
  have k: "\<And>a. a \<in> set ?keys \<longleftrightarrow> get_items ?d a \<noteq> []"
    using ok by (simp add: index_ok_def del: set_map)
  have m: "\<And>a b. (a, b) \<in> set (combinations2 ?keys)
             \<longleftrightarrow> a < b \<and> get_items ?d a \<noteq> [] \<and> get_items ?d b \<noteq> []"
    unfolding combinations2_sorted [OF s di] using k by auto
  have 1: "generate_pairs ?d = combinations2 (sorted_list_of_set {s. get_items ?d s \<noteq> []})"
    by (simp only: generate_pairs_def sort_keys_build)
  have 2: "\<forall>a b. (a, b) \<in> set (generate_pairs ?d)
             \<longleftrightarrow> a < b \<and> get_items ?d a \<noteq> [] \<and> get_items ?d b \<noteq> []"
    unfolding generate_pairs_def using m by blast
  have 3: "\<forall>a b. ((a, b) \<in> set (generate_pairs ?d) \<or> (b, a) \<in> set (generate_pairs ?d))
             \<longleftrightarrow> a \<noteq> b \<and> get_items ?d a \<noteq> [] \<and> get_items ?d b \<noteq> []"
    unfolding generate_pairs_def m by auto
  have 4: "\<forall>a. (a, a) \<notin> set (generate_pairs ?d)"
    unfolding generate_pairs_def m by simp
  have 5: "\<forall>a b. (a, b) \<in> set (generate_pairs ?d) \<longrightarrow> (b, a) \<notin> set (generate_pairs ?d)"
    unfolding generate_pairs_def m by auto
  have 6: "distinct (generate_pairs ?d)"
    unfolding generate_pairs_def by (rule distinct_combinations2 [OF di])
  have 7: "sorted_wrt pair_less (generate_pairs ?d)"
    unfolding generate_pairs_def by (rule sorted_wrt_combinations2 [OF s di])
  from 1 2 3 4 5 6 7 show ?thesis
    unfolding Let_def by (intro conjI)
qed

text \<open>Three substances give the three pairs, in order.\<close>

theorem pairs_are_combinations_witness:
  "generate_pairs (build_subs_to_items demo_env demo_detail_map demo_resolved)
     = [(''S1'', ''S2''), (''S1'', ''S3''), (''S2'', ''S3'')]
   \<and> distinct (generate_pairs (build_subs_to_items demo_env demo_detail_map demo_resolved))
   \<and> (''S1'', ''S1'') \<notin> set (generate_pairs (build_subs_to_items demo_env demo_detail_map demo_resolved))"
proof -
  have b: "build_subs_to_items demo_env demo_detail_map demo_resolved = demo_index"
    by (simp add: demo_defs model_defs)
  have g: "generate_pairs demo_index = [(''S1'', ''S2''), (''S1'', ''S3''), (''S2'', ''S3'')]"
    by (simp add: generate_pairs_def demo_index_def)
  from pairs_are_combinations [of demo_env demo_detail_map demo_resolved]
  have "distinct (generate_pairs (build_subs_to_items demo_env demo_detail_map demo_resolved))
     \<and> (''S1'', ''S1'') \<notin> set (generate_pairs (build_subs_to_items demo_env demo_detail_map demo_resolved))"
    unfolding Let_def by blast
  with b g show ?thesis
    by simp
qed

section \<open>The order of the entries\<close>

lemma mset_names_to_resolve:
  "mset hs' = mset hs \<Longrightarrow> mset (names_to_resolve E hs') = mset (names_to_resolve E hs)"
  by (simp add: names_to_resolve_def List.map_filter_def)

lemma names_to_resolve_Nil_perm:
  assumes "mset hs' = mset hs"
  shows "names_to_resolve E hs' = [] \<longleftrightarrow> names_to_resolve E hs = []"
  using mset_names_to_resolve [OF assms, of E] by (metis mset_zero_iff)

lemma resolve_history_names_perm:
  assumes "payload_perm p' p"
    and "resolve_names E (names_to_resolve E (drug_histories p'))
           = resolve_names E (names_to_resolve E (drug_histories p))"
  shows "rel_sum (=) payload_perm (resolve_history_names E p') (resolve_history_names E p)"
proof (cases "names_to_resolve E (drug_histories p) = []")
  case True
  from assms(1) have m: "mset (drug_histories p') = mset (drug_histories p)"
    by (simp add: payload_perm_def)
  from True have "names_to_resolve E (drug_histories p') = []"
    using names_to_resolve_Nil_perm [OF m, of E] by simp
  with True have "resolve_history_names E p' = Inr p'" and "resolve_history_names E p = Inr p"
    by (simp_all add: resolve_history_names_def)
  with assms(1) show ?thesis by simp
next
  case False
  from assms(1) have m: "mset (drug_histories p') = mset (drug_histories p)"
    by (simp add: payload_perm_def)
  from False have ne: "names_to_resolve E (drug_histories p') \<noteq> []"
    using names_to_resolve_Nil_perm [OF m, of E] by simp
  show ?thesis
  proof (cases "resolve_names E (names_to_resolve E (drug_histories p))")
    case (Inl err)
    with assms(2) have "resolve_names E (names_to_resolve E (drug_histories p')) = Inl err"
      by simp
    with Inl False ne have "resolve_history_names E p' = Inl err"
      and "resolve_history_names E p = Inl err"
      by (simp_all add: resolve_history_names_def)
    then show ?thesis by simp
  next
    case (Inr name_map)
    with assms(2) have "resolve_names E (names_to_resolve E (drug_histories p')) = Inr name_map"
      by simp
    with Inr False ne
    have 1: "resolve_history_names E p'
               = Inr (p'\<lparr>drug_histories := map (set_resolved name_map) (drug_histories p')\<rparr>)"
      and 2: "resolve_history_names E p
               = Inr (p\<lparr>drug_histories := map (set_resolved name_map) (drug_histories p)\<rparr>)"
      by (simp_all add: resolve_history_names_def)
    from assms(1) have "payload_perm
        (p'\<lparr>drug_histories := map (set_resolved name_map) (drug_histories p')\<rparr>)
        (p\<lparr>drug_histories := map (set_resolved name_map) (drug_histories p)\<rparr>)"
      by (simp add: payload_perm_def)
    with 1 2 show ?thesis by simp
  qed
qed

lemma all_codes_perm: "payload_perm p' p \<Longrightarrow> all_codes E p' = all_codes E p"
  unfolding payload_perm_def all_codes_def
  by (auto dest: mset_eq_setD)

lemma enrich_payload_perm:
  assumes "payload_perm p' p"
    and "\<And>detail_map items. enrich_items E detail_map items = Inr (map (enrich_item detail_map) items)"
  shows "\<exists>q' q. enrich_payload E dm p' = Inr q' \<and> enrich_payload E dm p = Inr q \<and> payload_perm q' q"
  using assms by (simp add: enrich_payload_def payload_perm_def)

lemma keys_build_perm:
  assumes "payload_perm q' q"
  shows "set (map fst (build_subs_to_items E dm q')) = set (map fst (build_subs_to_items E dm q))"
proof -
  from assms have "set (drug_currents q') = set (drug_currents q)"
    and "set (drug_histories q') = set (drug_histories q)"
    by (auto simp: payload_perm_def dest: mset_eq_setD)
  then show ?thesis
    by (simp only: keys_build)
qed

lemma sorted_keys_perm:
  assumes "payload_perm q' q"
  shows "sort (map fst (build_subs_to_items E dm q')) = sort (map fst (build_subs_to_items E dm q))"
proof -
  have "distinct (map fst (build_subs_to_items E dm q'))"
    and "distinct (map fst (build_subs_to_items E dm q))"
    using index_ok_build by (auto simp: index_ok_def)
  with keys_build_perm [OF assms, of E dm]
  have "mset (map fst (build_subs_to_items E dm q')) = mset (map fst (build_subs_to_items E dm q))"
    by (simp only: set_eq_iff_mset_eq_distinct)
  then show ?thesis
    by (intro properties_for_sort) simp_all
qed

text \<open>
  Claim C7: permuting the current list and the history list leaves the pairs unchanged (the
  whole list, hence the set), when the store gives the same name resolution for both
  requests. \<^verbatim>\<open>enrich_items\<close> is taken to work entry by entry, as the specification
  describes it; the detail lookup receives the same set of codes for both requests.
\<close>

theorem pairs_permutation_invariant:
  assumes "mset (drug_currents payload') = mset (drug_currents payload)"
    and "mset (drug_histories payload') = mset (drug_histories payload)"
    and "resolve_names E (names_to_resolve E (drug_histories payload'))
           = resolve_names E (names_to_resolve E (drug_histories payload))"
    and "\<And>detail_map items. enrich_items E detail_map items = Inr (map (enrich_item detail_map) items)"
  shows "candidate_pairs E payload' = candidate_pairs E payload"
proof -
  from assms(1,2) have pp: "payload_perm payload' payload"
    by (simp add: payload_perm_def)
  have r: "rel_sum (=) payload_perm (resolve_history_names E payload') (resolve_history_names E payload)"
    by (rule resolve_history_names_perm [OF pp assms(3)])
  show ?thesis
  proof (cases "resolve_history_names E payload")
    case (Inl err)
    with r have "resolve_history_names E payload' = Inl err"
      by (cases "resolve_history_names E payload'") simp_all
    with Inl show ?thesis
      by (simp add: candidate_pairs_def prepare_def)
  next
    case (Inr p1)
    with r obtain p1' where p1': "resolve_history_names E payload' = Inr p1'"
      and pp1: "payload_perm p1' p1"
      by (cases "resolve_history_names E payload'") simp_all
    have c: "all_codes E p1' = all_codes E p1"
      by (rule all_codes_perm [OF pp1])
    show ?thesis
    proof (cases "query_details E (all_codes E p1)")
      case (Inl err)
      with Inr p1' c show ?thesis
        by (simp add: candidate_pairs_def prepare_def)
    next
      case dm: (Inr detail_map)
      from enrich_payload_perm [OF pp1 assms(4), of detail_map]
      obtain q' q where q': "enrich_payload E detail_map p1' = Inr q'"
        and q: "enrich_payload E detail_map p1 = Inr q" and pq: "payload_perm q' q"
        by blast
      from Inr p1' c dm q' q sorted_keys_perm [OF pq, of E detail_map] show ?thesis
        by (simp add: candidate_pairs_def prepare_def generate_pairs_def)
    qed
  qed
qed

text \<open>The demonstration request with its current list rotated.\<close>

theorem pairs_permutation_invariant_witness:
  "mset (drug_currents demo_permuted) = mset (drug_currents demo_payload)
   \<and> mset (drug_histories demo_permuted) = mset (drug_histories demo_payload)
   \<and> candidate_pairs demo_env demo_permuted = candidate_pairs demo_env demo_payload
   \<and> candidate_pairs demo_env demo_payload = Inr [(''S1'', ''S2''), (''S1'', ''S3''), (''S2'', ''S3'')]"
proof -
  have 1: "mset (drug_currents demo_permuted) = mset (drug_currents demo_payload)"
    by (simp add: demo_permuted_def demo_payload_def)
  have 2: "mset (drug_histories demo_permuted) = mset (drug_histories demo_payload)"
    by (simp add: demo_permuted_def demo_payload_def)
  have 3: "resolve_names demo_env (names_to_resolve demo_env (drug_histories demo_permuted))
           = resolve_names demo_env (names_to_resolve demo_env (drug_histories demo_payload))"
    by (simp add: demo_env_def)
  have 4: "\<And>detail_map items. enrich_items demo_env detail_map items
             = Inr (map ((\<lambda>detail_map it. it) detail_map) items)"
    by (simp add: demo_env_def)
  have 5: "candidate_pairs demo_env demo_payload = Inr [(''S1'', ''S2''), (''S1'', ''S3''), (''S2'', ''S3'')]"
    by (simp add: candidate_pairs_def demo_prepare generate_pairs_def demo_index_def)
  from pairs_permutation_invariant [OF 1 2 3 4] 1 2 5 show ?thesis by simp
qed

section \<open>The external filter\<close>

lemma should_include_iff:
  "should_include m items \<longleftrightarrow> (\<forall>item \<in> set items. \<not> external_entry m item)"
  by (induction items) (auto simp: external_entry_def split: option.splits)

lemma filter_pairs_eq:
  "filter_pairs d m pairs =
     filter (\<lambda>p. \<forall>item \<in> set (get_items d (fst p)) \<union> set (get_items d (snd p)).
                   \<not> external_entry m item) pairs"
  by (induction d m pairs rule: filter_pairs.induct) (auto simp: should_include_iff)

text \<open>
  Claim C3: the filter keeps the pairs in their order and removes exactly those for which
  some contributing entry of either identifier has a trade-unit code that the status map
  sends to \<^verbatim>\<open>True\<close>. A code absent from the map counts as not external, and a pair none of
  whose contributing entries carries a trade-unit code is kept. As in the code, an empty
  string is no trade-unit code.
\<close>

theorem external_filter_iff:
  "filter_pairs d m pairs =
     filter (\<lambda>(sid1, sid2).
        \<not> (\<exists>item \<in> set (get_items d sid1) \<union> set (get_items d sid2).
               \<exists>t. tpu_code item = Some t \<and> t \<noteq> [] \<and> m t = Some True)) pairs
   \<and> (\<forall>(sid1, sid2) \<in> set pairs.
         (\<forall>item \<in> set (get_items d sid1) \<union> set (get_items d sid2).
            \<forall>t. tpu_code item = Some t \<and> t \<noteq> [] \<longrightarrow> m t = None)
         \<longrightarrow> (sid1, sid2) \<in> set (filter_pairs d m pairs))
   \<and> (\<forall>(sid1, sid2) \<in> set pairs.
         (\<forall>item \<in> set (get_items d sid1) \<union> set (get_items d sid2). \<not> truthy (tpu_code item))
         \<longrightarrow> (sid1, sid2) \<in> set (filter_pairs d m pairs))"
proof -
  have e: "external_entry m item
      \<longleftrightarrow> (\<exists>t. tpu_code item = Some t \<and> t \<noteq> [] \<and> m t = Some True)" for item
    by (auto simp: external_entry_def split: option.splits)
  have 1: "filter_pairs d m pairs =
     filter (\<lambda>(sid1, sid2).
        \<not> (\<exists>item \<in> set (get_items d sid1) \<union> set (get_items d sid2).
               \<exists>t. tpu_code item = Some t \<and> t \<noteq> [] \<and> m t = Some True)) pairs"
    unfolding filter_pairs_eq by (rule filter_cong) (auto simp: e)
  have t: "truthy (tpu_code item) \<longleftrightarrow> (\<exists>t. tpu_code item = Some t \<and> t \<noteq> [])" for item
    by (simp add: truthy_def split: option.splits)
  have 2: "\<forall>(sid1, sid2) \<in> set pairs.
         (\<forall>item \<in> set (get_items d sid1) \<union> set (get_items d sid2).
            \<forall>t. tpu_code item = Some t \<and> t \<noteq> [] \<longrightarrow> m t = None)
         \<longrightarrow> (sid1, sid2) \<in> set (filter_pairs d m pairs)"
    unfolding 1 by fastforce
  have 3: "\<forall>(sid1, sid2) \<in> set pairs.
         (\<forall>item \<in> set (get_items d sid1) \<union> set (get_items d sid2). \<not> truthy (tpu_code item))
         \<longrightarrow> (sid1, sid2) \<in> set (filter_pairs d m pairs)"
    unfolding 1 t by fastforce
  from 1 2 3 show ?thesis
    by (intro conjI)
qed

text \<open>
  With \<open>T1\<close> external every pair of \<open>S1\<close> goes; with only the unused \<open>T9\<close> external
  all three pairs stay.
\<close>

theorem external_filter_iff_witness:
  "filter_pairs demo_index [''T1'' \<mapsto> True] (generate_pairs demo_index) = [(''S2'', ''S3'')]
   \<and> filter_pairs demo_index [''T9'' \<mapsto> True] (generate_pairs demo_index)
       = [(''S1'', ''S2''), (''S1'', ''S3''), (''S2'', ''S3'')]
   \<and> (''S2'', ''S3'') \<in> set (filter_pairs demo_index [''T1'' \<mapsto> True] (generate_pairs demo_index))"
proof -
  have g: "generate_pairs demo_index = [(''S1'', ''S2''), (''S1'', ''S3''), (''S2'', ''S3'')]"
    by (simp add: generate_pairs_def demo_index_def)
  have i: "get_items demo_index ''S1'' = [warfarin, coumadin]"
    "get_items demo_index ''S2'' = [ibuprofen]"
    "get_items demo_index ''S3'' = [aspirin\<lparr>subs_code := Some ''S3''\<rparr>]"
    by (simp_all add: get_items_def demo_index_def)
  have t: "tpu_code warfarin = Some ''T1''" "tpu_code coumadin = None" "tpu_code ibuprofen = None"
    "tpu_code (aspirin\<lparr>subs_code := Some ''S3''\<rparr>) = None"
    by (simp_all add: demo_defs)
  from external_filter_iff [of demo_index "[''T1'' \<mapsto> True]" "generate_pairs demo_index"]
  have 1: "filter_pairs demo_index [''T1'' \<mapsto> True] (generate_pairs demo_index) = [(''S2'', ''S3'')]"
    by (simp add: g i t)
  from external_filter_iff [of demo_index "[''T9'' \<mapsto> True]" "generate_pairs demo_index"]
  have 2: "filter_pairs demo_index [''T9'' \<mapsto> True] (generate_pairs demo_index)
       = [(''S1'', ''S2''), (''S1'', ''S3''), (''S2'', ''S3'')]"
    by (simp add: g i t)
  from external_filter_iff [of demo_index "[''T1'' \<mapsto> True]" "generate_pairs demo_index"]
  have 3: "(''S2'', ''S3'') \<in> set (filter_pairs demo_index [''T1'' \<mapsto> True] (generate_pairs demo_index))"
    by (simp add: g i t truthy_def)
  from 1 2 3 show ?thesis by simp
qed

section \<open>The record lookup\<close>

lemma fold_pair_to_data_None:
  "fold (\<lambda>r m. m((sub1_id r, sub2_id r) \<mapsto> r)) raw m0 k = None
     \<longleftrightarrow> m0 k = None \<and> (\<forall>r \<in> set raw. (sub1_id r, sub2_id r) \<noteq> k)"
  by (induction raw arbitrary: m0) auto

lemma fold_pair_to_data_Some:
  "fold (\<lambda>r m. m((sub1_id r, sub2_id r) \<mapsto> r)) raw m0 k = Some x
     \<Longrightarrow> m0 k = Some x \<or> (x \<in> set raw \<and> (sub1_id x, sub2_id x) = k)"
proof (induction raw arbitrary: m0)
  case Nil
  then show ?case by simp
next
  case (Cons a raw)
  from Cons.prems have "(m0((sub1_id a, sub2_id a) \<mapsto> a)) k = Some x
      \<or> (x \<in> set raw \<and> (sub1_id x, sub2_id x) = k)"
    by (intro Cons.IH) simp
  then show ?case
    by (auto split: if_splits)
qed

lemma pair_to_data_None:
  "build_pair_to_data raw (a, b) = None \<longleftrightarrow> (\<forall>r \<in> set raw. \<not> keyed_by r a b)"
  by (simp add: build_pair_to_data_def fold_pair_to_data_None keyed_by_def)

lemma pair_to_data_Some:
  "build_pair_to_data raw (a, b) = Some x \<Longrightarrow> x \<in> set raw \<and> keyed_by x a b"
  using fold_pair_to_data_Some [of raw Map.empty "(a, b)" x]
  by (simp add: build_pair_to_data_def keyed_by_def)

lemma lookup_record_None:
  "lookup_record (build_pair_to_data raw) a b = None
     \<longleftrightarrow> (\<forall>r \<in> set raw. \<not> keyed_by r a b \<and> \<not> keyed_by r b a)"
  by (auto simp: lookup_record_def pair_to_data_None split: option.splits
           dest: pair_to_data_Some)

lemma lookup_record_Some:
  "lookup_record (build_pair_to_data raw) a b = Some x
     \<Longrightarrow> x \<in> set raw \<and> (keyed_by x a b \<or> keyed_by x b a)"
  by (auto simp: lookup_record_def split: option.splits dest: pair_to_data_Some)

text \<open>
  Claim C4: the lookup for \<open>(s1, s2)\<close> succeeds exactly when the batch holds a record
  keyed \<open>(s1, s2)\<close> or \<open>(s2, s1)\<close>; and when \<open>r\<close> is the one record of the batch for
  the pair, the lookup returns \<open>r\<close>, whichever of the two orderings keys it.
\<close>

theorem record_lookup_either_ordering:
  "(lookup_record (build_pair_to_data raw) s1 s2 \<noteq> None
      \<longleftrightarrow> (\<exists>r \<in> set raw. keyed_by r s1 s2 \<or> keyed_by r s2 s1))
   \<and> (\<forall>r \<in> set raw.
        (keyed_by r s1 s2 \<or> keyed_by r s2 s1)
        \<and> (\<forall>r' \<in> set raw. keyed_by r' s1 s2 \<or> keyed_by r' s2 s1 \<longrightarrow> r' = r)
        \<longrightarrow> lookup_record (build_pair_to_data raw) s1 s2 = Some r)"
proof (intro conjI ballI impI)
  show "lookup_record (build_pair_to_data raw) s1 s2 \<noteq> None
      \<longleftrightarrow> (\<exists>r \<in> set raw. keyed_by r s1 s2 \<or> keyed_by r s2 s1)"
    by (auto simp: lookup_record_None)
next
  fix r
  assume r: "r \<in> set raw"
    and u: "(keyed_by r s1 s2 \<or> keyed_by r s2 s1)
        \<and> (\<forall>r' \<in> set raw. keyed_by r' s1 s2 \<or> keyed_by r' s2 s1 \<longrightarrow> r' = r)"
  from r u have "lookup_record (build_pair_to_data raw) s1 s2 \<noteq> None"
    by (auto simp: lookup_record_None)
  then obtain x where x: "lookup_record (build_pair_to_data raw) s1 s2 = Some x"
    by auto
  from lookup_record_Some [OF x] u have "x = r" by blast
  with x show "lookup_record (build_pair_to_data raw) s1 s2 = Some r" by simp
qed

text \<open>The record stored as \<open>(S3, S1)\<close> is found under both orderings.\<close>

theorem record_lookup_either_ordering_witness:
  "lookup_record (build_pair_to_data demo_records) ''S1'' ''S3'' = Some (demo_record ''S3'' ''S1'' ''y'')
   \<and> lookup_record (build_pair_to_data demo_records) ''S3'' ''S1'' = Some (demo_record ''S3'' ''S1'' ''y'')
   \<and> lookup_record (build_pair_to_data demo_records) ''S2'' ''S3'' = None"
proof -
  have 1: "lookup_record (build_pair_to_data demo_records) ''S1'' ''S3'' = Some (demo_record ''S3'' ''S1'' ''y'')"
    using record_lookup_either_ordering [of demo_records "''S1''" "''S3''"]
    by (simp add: demo_records_def demo_record_def keyed_by_def)
  have 2: "lookup_record (build_pair_to_data demo_records) ''S3'' ''S1'' = Some (demo_record ''S3'' ''S1'' ''y'')"
    using record_lookup_either_ordering [of demo_records "''S3''" "''S1''"]
    by (simp add: demo_records_def demo_record_def keyed_by_def)
  have 3: "lookup_record (build_pair_to_data demo_records) ''S2'' ''S3'' = None"
    using record_lookup_either_ordering [of demo_records "''S2''" "''S3''"]
    by (simp add: demo_records_def demo_record_def keyed_by_def)
  from 1 2 3 show ?thesis by simp
qed

section \<open>The rows\<close>

lemma map_fst_enum: "map (\<lambda>x. f (fst x)) (enumerate n xs) = map f [n..<n + length xs]"
proof -
  have "map (\<lambda>x. f (fst x)) (enumerate n xs) = map f (map fst (enumerate n xs))"
    by (simp only: map_map comp_def)
  also have "\<dots> = map f [n..<n + length xs]"
    by (simp only: map_fst_enumerate)
  finally show ?thesis .
qed

lemma map_snd_enum: "map (\<lambda>x. g (snd x)) (enumerate n xs) = map g xs"
  by (induction xs arbitrary: n) simp_all

lemma contrast_loop_eq:
  "contrast_loop E r in_item ct_items (n, rows) =
     (n + length ct_items,
      rows @ map (\<lambda>(k, ct_item). make_row E (uuid4 E k) r in_item ct_item) (enumerate n ct_items))"
  unfolding contrast_loop_def
  by (induction ct_items arbitrary: n rows) simp_all

lemma enumerate_map_Pair:
  "enumerate n (map (Pair a) xs) = map (\<lambda>(k, x). (k, a, x)) (enumerate n xs)"
  by (induction xs arbitrary: n) simp_all

lemma input_loop_eq:
  "input_loop E r in_items ct_items (n, rows) =
     (n + length in_items * length ct_items,
      rows @ map (\<lambda>(k, in_item, ct_item). make_row E (uuid4 E k) r in_item ct_item)
               (enumerate n (List.product in_items ct_items)))"
  unfolding input_loop_def
proof (induction in_items arbitrary: n rows)
  case Nil
  then show ?case by simp
next
  case (Cons a in_items)
  have e: "enumerate n (List.product (a # in_items) ct_items)
      = map (\<lambda>(k, x). (k, a, x)) (enumerate n ct_items)
        @ enumerate (n + length ct_items) (List.product in_items ct_items)"
    by (simp add: enumerate_append_eq enumerate_map_Pair)
  have m: "map (\<lambda>(k, in_item, ct_item). make_row E (uuid4 E k) r in_item ct_item)
             (map (\<lambda>(k, x). (k, a, x)) (enumerate n ct_items))
         = map (\<lambda>(k, ct_item). make_row E (uuid4 E k) r a ct_item) (enumerate n ct_items)"
    by (simp add: case_prod_unfold)
  have "fold (\<lambda>in_item. contrast_loop E r in_item ct_items) (a # in_items) (n, rows)
      = fold (\<lambda>in_item. contrast_loop E r in_item ct_items) in_items
          (n + length ct_items,
           rows @ map (\<lambda>(k, ct_item). make_row E (uuid4 E k) r a ct_item) (enumerate n ct_items))"
    by (simp add: contrast_loop_eq)
  also have "\<dots> = (n + length ct_items + length in_items * length ct_items,
      (rows @ map (\<lambda>(k, ct_item). make_row E (uuid4 E k) r a ct_item) (enumerate n ct_items))
       @ map (\<lambda>(k, in_item, ct_item). make_row E (uuid4 E k) r in_item ct_item)
               (enumerate (n + length ct_items) (List.product in_items ct_items)))"
    by (rule Cons.IH)
  also have "\<dots> = (n + length (a # in_items) * length ct_items,
      rows @ map (\<lambda>(k, in_item, ct_item). make_row E (uuid4 E k) r in_item ct_item)
               (enumerate n (List.product (a # in_items) ct_items)))"
    unfolding e by (simp add: m split_beta)
  finally show ?case .
qed

lemma rows_for_pair_turn:
  "\<exists>new. rows_for_pair E d (build_pair_to_data raw) p (n, rows) = (n + length new, rows @ new)
       \<and> cross_join_block E d raw p new"
proof (cases "lookup_record (build_pair_to_data raw) (fst p) (snd p)")
  case None
  then have "\<forall>r \<in> set raw. \<not> keyed_by r (fst p) (snd p) \<and> \<not> keyed_by r (snd p) (fst p)"
    by (simp add: lookup_record_None)
  then have "cross_join_block E d raw p []"
    by (simp add: cross_join_block_def)
  moreover from None have "rows_for_pair E d (build_pair_to_data raw) p (n, rows) = (n + length [], rows @ [])"
    by (simp add: rows_for_pair_def)
  ultimately show ?thesis by blast
next
  case (Some r)
  let ?I = "get_items d (fst p)" and ?C = "get_items d (snd p)"
  let ?new = "map (\<lambda>(k, in_item, ct_item). make_row E (uuid4 E k) r in_item ct_item)
               (enumerate n (List.product ?I ?C))"
  from lookup_record_Some [OF Some] have rin: "r \<in> set raw"
    and rk: "keyed_by r (fst p) (snd p) \<or> keyed_by r (snd p) (fst p)" by simp_all
  have 1: "rows_for_pair E d (build_pair_to_data raw) p (n, rows) = (n + length ?new, rows @ ?new)"
    using Some by (simp add: rows_for_pair_def input_loop_eq)
  have 2: "length ?new = length ?I * length ?C"
    by simp
  have 3: "map (\<lambda>x. (input_fields x, contrast_fields x)) ?new
         = map (\<lambda>(in_item, ct_item).
                  (fill_codes E ''input'' in_item, fill_codes E ''contrast'' ct_item))
             (List.product ?I ?C)"
    by (simp add: case_prod_unfold make_row_def comp_def
          map_snd_enum [of "\<lambda>p. (fill_codes E ''input'' (fst p), fill_codes E ''contrast'' (snd p))"])
  have 4: "\<forall>x \<in> set ?new.
             contrast_type x = 0
             \<and> interaction_detail_en x = rec_interaction_detail_en r
             \<and> interaction_detail_th x = rec_interaction_detail_th r
             \<and> onset x = rec_onset r
             \<and> severity x = rec_severity r
             \<and> documentation x = rec_documentation r
             \<and> significance x = rec_significance r
             \<and> management x = rec_management r
             \<and> discussion x = rec_discussion r
             \<and> reference x = rec_reference r
             \<and> input_substances x = [(sub1_id r, sub1_name r)]
             \<and> contrast_substances x = [(sub2_id r, sub2_name r)]"
    by (auto simp: make_row_def)
  have ex: "\<exists>r \<in> set raw. keyed_by r (fst p) (snd p) \<or> keyed_by r (snd p) (fst p)"
    using rin rk by blast
  have "cross_join_block E d raw p ?new"
    unfolding cross_join_block_def
  proof (intro conjI impI)
    assume "\<forall>r \<in> set raw. \<not> keyed_by r (fst p) (snd p) \<and> \<not> keyed_by r (snd p) (fst p)"
    with ex show "?new = []" by blast
  next
    show "\<exists>r \<in> set raw. (keyed_by r (fst p) (snd p) \<or> keyed_by r (snd p) (fst p))
               \<and> length ?new = length ?I * length ?C
               \<and> map (\<lambda>x. (input_fields x, contrast_fields x)) ?new
                   = map (\<lambda>(in_item, ct_item).
                            (fill_codes E ''input'' in_item, fill_codes E ''contrast'' ct_item))
                       (List.product ?I ?C)
               \<and> (\<forall>x \<in> set ?new.
                     contrast_type x = 0
                     \<and> interaction_detail_en x = rec_interaction_detail_en r
                     \<and> interaction_detail_th x = rec_interaction_detail_th r
                     \<and> onset x = rec_onset r
                     \<and> severity x = rec_severity r
                     \<and> documentation x = rec_documentation r
                     \<and> significance x = rec_significance r
                     \<and> management x = rec_management r
                     \<and> discussion x = rec_discussion r
                     \<and> reference x = rec_reference r
                     \<and> input_substances x = [(sub1_id r, sub1_name r)]
                     \<and> contrast_substances x = [(sub2_id r, sub2_name r)])"
      by (intro bexI [OF _ rin] conjI rk 2 3 4)
  qed
  with 1 show ?thesis by blast
qed

lemma fold_rows_for_pair_blocks:
  "\<exists>blocks. fold (rows_for_pair E d (build_pair_to_data raw)) pairs (n, rows)
               = (n + length (concat blocks), rows @ concat blocks)
       \<and> list_all2 (cross_join_block E d raw) pairs blocks"
proof (induction pairs arbitrary: n rows)
  case Nil
  have "fold (rows_for_pair E d (build_pair_to_data raw)) [] (n, rows)
          = (n + length (concat []), rows @ concat [])
        \<and> list_all2 (cross_join_block E d raw) [] []"
    by simp
  then show ?case by blast
next
  case (Cons p pairs)
  obtain new where t: "rows_for_pair E d (build_pair_to_data raw) p (n, rows)
      = (n + length new, rows @ new)" and b: "cross_join_block E d raw p new"
    using rows_for_pair_turn by blast
  obtain blocks where f: "fold (rows_for_pair E d (build_pair_to_data raw)) pairs
        (n + length new, rows @ new)
      = (n + length new + length (concat blocks), (rows @ new) @ concat blocks)"
    and l: "list_all2 (cross_join_block E d raw) pairs blocks"
    using Cons.IH by blast
  have "fold (rows_for_pair E d (build_pair_to_data raw)) (p # pairs) (n, rows)
          = (n + length (concat (new # blocks)), rows @ concat (new # blocks))"
    using t f by (simp add: add.assoc)
  moreover have "list_all2 (cross_join_block E d raw) (p # pairs) (new # blocks)"
    using b l by simp
  ultimately show ?case by blast
qed

lemma cross_join_block_length:
  assumes "cross_join_block E d raw p new"
  shows "length new =
     (if \<exists>r \<in> set raw. keyed_by r (fst p) (snd p) \<or> keyed_by r (snd p) (fst p)
      then length (get_items d (fst p)) * length (get_items d (snd p)) else 0)"
proof (cases "\<exists>r \<in> set raw. keyed_by r (fst p) (snd p) \<or> keyed_by r (snd p) (fst p)")
  case True
  with assms have "length new = length (get_items d (fst p)) * length (get_items d (snd p))"
    unfolding cross_join_block_def by blast
  with True show ?thesis by simp
next
  case False
  with assms have "new = []"
    unfolding cross_join_block_def by blast
  with False show ?thesis by simp
qed

lemma blocks_length:
  assumes "list_all2 (cross_join_block E d raw) pairs blocks"
  shows "length (concat blocks) =
     sum_list (map (\<lambda>p.
        if \<exists>r \<in> set raw. keyed_by r (fst p) (snd p) \<or> keyed_by r (snd p) (fst p)
        then length (get_items d (fst p)) * length (get_items d (snd p)) else 0) pairs)"
  using assms
proof (induction pairs blocks rule: list_all2_induct)
  case Nil
  then show ?case by simp
next
  case (Cons p pairs new blocks)
  from cross_join_block_length [OF Cons.hyps(1)] Cons.IH show ?case
    by simp
qed

text \<open>
  Claim C8: the rows that the assembler returns for the filtered pairs are the concatenation
  of one block for each pair, in the order of the pairs. A pair that no record of the batch
  matches under either ordering has the empty block: it contributes no row and raises
  nothing. A pair that a record matches has, for a record \<open>r\<close> of the batch keyed by one of
  its orderings, exactly one row for each combination of an entry of \<open>s1\<close> (input fields)
  with an entry of \<open>s2\<close> (contrast fields), that is
  \<open>length (get_items d s1) * length (get_items d s2)\<close> rows, each with
  \<^verbatim>\<open>contrast_type = 0\<close>, the interaction fields of \<open>r\<close>, and the two one-element
  substance lists that \<open>r\<close> records. The number of rows is therefore the sum of these
  products over the pairs that have a record.
\<close>

theorem assemble_rows_cross_join:
  "\<exists>blocks. assemble_rows E d raw pairs = concat blocks
     \<and> list_all2 (\<lambda>(s1, s2) new.
          ((\<forall>r \<in> set raw. \<not> keyed_by r s1 s2 \<and> \<not> keyed_by r s2 s1) \<longrightarrow> new = [])
          \<and> ((\<exists>r \<in> set raw. keyed_by r s1 s2 \<or> keyed_by r s2 s1)
             \<longrightarrow> (\<exists>r \<in> set raw. (keyed_by r s1 s2 \<or> keyed_by r s2 s1)
                   \<and> length new = length (get_items d s1) * length (get_items d s2)
                   \<and> map (\<lambda>x. (input_fields x, contrast_fields x)) new
                       = map (\<lambda>(in_item, ct_item).
                                (fill_codes E ''input'' in_item, fill_codes E ''contrast'' ct_item))
                           (List.product (get_items d s1) (get_items d s2))
                   \<and> (\<forall>x \<in> set new.
                         contrast_type x = 0
                         \<and> interaction_detail_en x = rec_interaction_detail_en r
                         \<and> interaction_detail_th x = rec_interaction_detail_th r
                         \<and> onset x = rec_onset r
                         \<and> severity x = rec_severity r
                         \<and> documentation x = rec_documentation r
                         \<and> significance x = rec_significance r
                         \<and> management x = rec_management r
                         \<and> discussion x = rec_discussion r
                         \<and> reference x = rec_reference r
                         \<and> input_substances x = [(sub1_id r, sub1_name r)]
                         \<and> contrast_substances x = [(sub2_id r, sub2_name r)]))))
        pairs blocks
     \<and> length (assemble_rows E d raw pairs)
         = sum_list (map (\<lambda>(s1, s2).
              if \<exists>r \<in> set raw. keyed_by r s1 s2 \<or> keyed_by r s2 s1
              then length (get_items d s1) * length (get_items d s2) else 0) pairs)"
proof -
  obtain blocks where f: "fold (rows_for_pair E d (build_pair_to_data raw)) pairs (0, [])
      = (0 + length (concat blocks), [] @ concat blocks)"
    and l: "list_all2 (cross_join_block E d raw) pairs blocks"
    using fold_rows_for_pair_blocks by blast
  from f have a: "assemble_rows E d raw pairs = concat blocks"
    by (simp add: assemble_rows_def)
  have c: "length (assemble_rows E d raw pairs)
         = sum_list (map (\<lambda>(s1, s2).
              if \<exists>r \<in> set raw. keyed_by r s1 s2 \<or> keyed_by r s2 s1
              then length (get_items d s1) * length (get_items d s2) else 0) pairs)"
    unfolding a blocks_length [OF l] by (simp add: case_prod_unfold)
  from l have l': "list_all2 (\<lambda>p new. cross_join_block E d raw p new) pairs blocks"
    by simp
  show ?thesis
    apply (rule exI [of _ blocks])
    apply (intro conjI a c)
    using l' unfolding cross_join_block_def case_prod_unfold
    apply assumption
    done
qed

text \<open>
  The three pairs of the demonstration index: \<open>(S1, S2)\<close> and \<open>(S1, S3)\<close> have two
  entries on the input side and one on the contrast side, the record of \<open>(S1, S3)\<close> is
  stored as \<open>(S3, S1)\<close>, and \<open>(S2, S3)\<close> has no record.
\<close>

theorem assemble_rows_cross_join_witness:
  "generate_pairs demo_index = [(''S1'', ''S2''), (''S1'', ''S3''), (''S2'', ''S3'')]
   \<and> length (assemble_rows demo_env demo_index demo_records (generate_pairs demo_index)) = 4
   \<and> map input_fields (assemble_rows demo_env demo_index demo_records (generate_pairs demo_index))
       = [[''input'', ''T1''], [''input'', ''S1''], [''input'', ''T1''], [''input'', ''S1'']]
   \<and> map contrast_fields (assemble_rows demo_env demo_index demo_records (generate_pairs demo_index))
       = [[''contrast'', ''S2''], [''contrast'', ''S2''], [''contrast'', ''S3''], [''contrast'', ''S3'']]
   \<and> map contrast_type (assemble_rows demo_env demo_index demo_records (generate_pairs demo_index))
       = [0, 0, 0, 0]
   \<and> map input_substances (assemble_rows demo_env demo_index demo_records (generate_pairs demo_index))
       = [[(''S1'', ''name of S1'')], [(''S1'', ''name of S1'')],
          [(''S3'', ''name of S3'')], [(''S3'', ''name of S3'')]]
   \<and> map contrast_substances (assemble_rows demo_env demo_index demo_records (generate_pairs demo_index))
       = [[(''S2'', ''name of S2'')], [(''S2'', ''name of S2'')],
          [(''S1'', ''name of S1'')], [(''S1'', ''name of S1'')]]"
proof -
  have g: "generate_pairs demo_index = [(''S1'', ''S2''), (''S1'', ''S3''), (''S2'', ''S3'')]"
    by (simp add: generate_pairs_def demo_index_def)
  have i: "get_items demo_index ''S1'' = [warfarin, coumadin]"
    "get_items demo_index ''S2'' = [ibuprofen]"
    "get_items demo_index ''S3'' = [aspirin\<lparr>subs_code := Some ''S3''\<rparr>]"
    by (simp_all add: get_items_def demo_index_def)
  have "length (assemble_rows demo_env demo_index demo_records (generate_pairs demo_index))
      = sum_list (map (\<lambda>(s1, s2).
              if \<exists>r \<in> set demo_records. keyed_by r s1 s2 \<or> keyed_by r s2 s1
              then length (get_items demo_index s1) * length (get_items demo_index s2) else 0)
           (generate_pairs demo_index))"
    using assemble_rows_cross_join [of demo_env demo_index demo_records "generate_pairs demo_index"] by blast
  then have l: "length (assemble_rows demo_env demo_index demo_records (generate_pairs demo_index)) = 4"
    by (simp add: g i demo_records_def demo_record_def keyed_by_def)
  have r: "map input_fields (assemble_rows demo_env demo_index demo_records (generate_pairs demo_index))
       = [[''input'', ''T1''], [''input'', ''S1''], [''input'', ''T1''], [''input'', ''S1'']]
   \<and> map contrast_fields (assemble_rows demo_env demo_index demo_records (generate_pairs demo_index))
       = [[''contrast'', ''S2''], [''contrast'', ''S2''], [''contrast'', ''S3''], [''contrast'', ''S3'']]
   \<and> map contrast_type (assemble_rows demo_env demo_index demo_records (generate_pairs demo_index))
       = [0, 0, 0, 0]
   \<and> map input_substances (assemble_rows demo_env demo_index demo_records (generate_pairs demo_index))
       = [[(''S1'', ''name of S1'')], [(''S1'', ''name of S1'')],
          [(''S3'', ''name of S3'')], [(''S3'', ''name of S3'')]]
   \<and> map contrast_substances (assemble_rows demo_env demo_index demo_records (generate_pairs demo_index))
       = [[(''S2'', ''name of S2'')], [(''S2'', ''name of S2'')],
          [(''S1'', ''name of S1'')], [(''S1'', ''name of S1'')]]"
    by (simp add: g demo_defs model_defs)
  from g l r show ?thesis by (intro conjI) simp_all
qed

section \<open>The row identifiers\<close>

lemma ref_id_make_row: "ref_id (make_row E rid r a b) = rid"
  by (simp add: make_row_def)

lemma ref_ids_new_rows:
  "map ref_id (map (\<lambda>(k, in_item, ct_item). make_row E (uuid4 E k) r in_item ct_item) zs)
     = map (\<lambda>x. uuid4 E (fst x)) zs"
  by (induction zs) (simp_all add: case_prod_unfold ref_id_make_row)

lemma ref_ids_input_loop:
  "map ref_id (snd (input_loop E r xs ys (n, rows)))
     = map ref_id rows @ map (uuid4 E) [n..<n + length xs * length ys]"
proof -
  have "map ref_id (map (\<lambda>(k, in_item, ct_item). make_row E (uuid4 E k) r in_item ct_item)
               (enumerate n (List.product xs ys)))
      = map (uuid4 E) [n..<n + length (List.product xs ys)]"
    unfolding ref_ids_new_rows by (rule map_fst_enum)
  then have "map ref_id (map (\<lambda>(k, in_item, ct_item). make_row E (uuid4 E k) r in_item ct_item)
               (enumerate n (List.product xs ys)))
      = map (uuid4 E) [n..<n + length xs * length ys]"
    by (simp only: length_product)
  then show ?thesis
    unfolding input_loop_eq snd_conv map_append by (rule arg_cong)
qed

lemma fst_input_loop:
  "fst (input_loop E r xs ys (n, rows)) = n + length xs * length ys"
  by (simp add: input_loop_eq)

lemma ids_fresh_input_loop:
  assumes "ids_fresh E (n, rows)"
  shows "ids_fresh E (input_loop E r xs ys (n, rows))"
proof -
  from assms have a: "map ref_id rows = map (uuid4 E) [0..<n]"
    by (simp add: ids_fresh_def)
  have "map (uuid4 E) [0..<n + length xs * length ys]
      = map (uuid4 E) [0..<n] @ map (uuid4 E) [n..<n + length xs * length ys]"
    using upt_add_eq_append [of 0 n "length xs * length ys"] by simp
  then show ?thesis
    unfolding ids_fresh_def fst_input_loop ref_ids_input_loop a by simp
qed

lemma ids_fresh_rows_for_pair:
  assumes "ids_fresh E st"
  shows "ids_fresh E (rows_for_pair E d m p st)"
proof (cases "lookup_record m (fst p) (snd p)")
  case None
  with assms show ?thesis by (simp add: rows_for_pair_def)
next
  case (Some r)
  obtain n rows where st: "st = (n, rows)" by (cases st)
  have "rows_for_pair E d m p st
      = input_loop E r (get_items d (fst p)) (get_items d (snd p)) (n, rows)"
    by (simp add: rows_for_pair_def Some st)
  with assms st show ?thesis
    by (simp add: ids_fresh_input_loop)
qed

lemma ids_fresh_fold:
  "ids_fresh E st \<Longrightarrow> ids_fresh E (fold (rows_for_pair E d m) pairs st)"
  by (induction pairs arbitrary: st) (simp_all add: ids_fresh_rows_for_pair)

lemma ref_ids_assemble_rows:
  "\<exists>n. map ref_id (assemble_rows E d raw pairs) = map (uuid4 E) [0..<n]"
proof -
  have "ids_fresh E (0, [])" by (simp add: ids_fresh_def)
  then have "ids_fresh E (fold (rows_for_pair E d (build_pair_to_data raw)) pairs (0, []))"
    by (rule ids_fresh_fold)
  then show ?thesis
    unfolding assemble_rows_def ids_fresh_def by blast
qed

lemma distinct_assemble_rows:
  assumes "inj (uuid4 E)"
  shows "distinct (map ref_id (assemble_rows E d raw pairs))"
proof -
  obtain n where "map ref_id (assemble_rows E d raw pairs) = map (uuid4 E) [0..<n]"
    using ref_ids_assemble_rows by blast
  moreover have "distinct (map (uuid4 E) [0..<n])"
    using assms by (simp add: distinct_map inj_on_def inj_def)
  ultimately show ?thesis by simp
qed

lemma assembled_rows_distinct:
  assumes "inj (uuid4 E)" and "assembled_rows E payload = Inr rows"
  shows "distinct (map ref_id rows)"
proof -
  from assms(2) obtain d raw pairs where "rows = assemble_rows E d raw pairs"
    unfolding assembled_rows_def Let_def
    by (auto split: sum.splits prod.splits)
  then show ?thesis
    using distinct_assemble_rows [OF assms(1)] by simp
qed

lemma distinct_take_drop_map:
  assumes "distinct (map f xs)"
  shows "distinct (map f (take k (drop j xs)))"
proof -
  have "map f (take k (drop j xs)) = take k (drop j (map f xs))"
    by (simp add: take_map drop_map)
  with assms show ?thesis
    by (simp only: distinct_take distinct_drop)
qed

lemma distinct_py_slice: "distinct (map f xs) \<Longrightarrow> distinct (map f (py_slice xs a b))"
  unfolding py_slice_def Let_def by (rule distinct_take_drop_map)

text \<open>
  Claim C9: \<^verbatim>\<open>uuid4\<close> is called once for each row. With a generator that never repeats
  a value, the assembled rows have pairwise distinct \<^verbatim>\<open>ref_id\<close>s, and so have the rows
  of every page of the response.
\<close>

theorem ref_ids_distinct:
  assumes "inj (uuid4 E)" and "assembled_rows E payload = Inr rows"
  shows "distinct (map ref_id rows)
     \<and> (\<exists>resp. get_interactions E payload page_no row_no = Inr resp
              \<and> distinct (map ref_id (page_data (data resp))))"
proof -
  have d: "distinct (map ref_id rows)"
    by (rule assembled_rows_distinct [OF assms])
  have "distinct (map ref_id (py_slice rows ((page_no - 1) * row_no) ((page_no - 1) * row_no + row_no)))"
    by (rule distinct_py_slice [OF d])
  with d assms(2) show ?thesis
    by (simp add: get_interactions_def paginate_def Let_def)
qed

text \<open>Four rows, two for each of two pairs, with four different identifiers.\<close>

theorem ref_ids_distinct_witness:
  "inj (uuid4 demo_env)
   \<and> (\<exists>rows. assembled_rows demo_env demo_payload = Inr rows
         \<and> map ref_id rows = [''u'', ''uu'', ''uuu'', ''uuuu'']
         \<and> distinct (map ref_id rows))"
proof -
  obtain rows :: "(string list, string) contrast_item list"
    where ar: "assembled_rows demo_env demo_payload = Inr rows"
    and l: "map ref_id rows = [''u'', ''uu'', ''uuu'', ''uuuu'']"
    using demo_rows by auto
  from ref_ids_distinct [OF demo_uuid4_inj ar, of 1 10] have d: "distinct (map ref_id rows)"
    by simp
  show ?thesis
    by (intro conjI exI [of _ rows] demo_uuid4_inj ar l d)
qed

section \<open>Pagination\<close>

lemma py_slice_page:
  assumes "0 \<le> start" "0 \<le> len"
  shows "py_slice xs start (start + len) = take (nat len) (drop (nat start) xs)"
proof (cases "start \<le> int (length xs)")
  case True
  show ?thesis
  proof (cases "start + len \<le> int (length xs)")
    case True
    with assms \<open>start \<le> int (length xs)\<close> show ?thesis
      by (simp add: py_slice_def Let_def min_def)
  next
    case False
    with assms \<open>start \<le> int (length xs)\<close> show ?thesis
      by (simp add: py_slice_def Let_def min_def)
  qed
next
  case False
  with assms show ?thesis
    by (simp add: py_slice_def Let_def min_def)
qed

lemma length_page:
  assumes "0 \<le> start" "0 \<le> len"
  shows "int (length (take (nat len) (drop (nat start) xs)))
           = max 0 (min len (int (length xs) - start))"
  using assms by (simp add: min_def max_def) linarith

text \<open>
  Claim C2: for \<open>page \<ge> 1\<close> and \<open>row \<ge> 1\<close>, with \<open>rows\<close> the list assembled before slicing,
  the response's \<^verbatim>\<open>total\<close> is the length of \<open>rows\<close>, its data is the slice
  \<open>[(page - 1) * row, (page - 1) * row + row)\<close> cut at the end of the list, its \<^verbatim>\<open>row\<close>
  field is the length of that slice, which is
  \<open>max 0 (min row (total - (page - 1) * row))\<close>, and a page past the end gives an empty
  slice and \<^verbatim>\<open>row = 0\<close>.
\<close>

theorem pagination_slice:
  assumes "1 \<le> page_no" and "1 \<le> row_no"
    and "assembled_rows E payload = Inr rows"
  shows "\<exists>resp. get_interactions E payload page_no row_no = Inr resp
     \<and> total (pagination (data resp)) = int (length rows)
     \<and> page_data (data resp) = take (nat row_no) (drop (nat ((page_no - 1) * row_no)) rows)
     \<and> row (pagination (data resp)) = int (length (page_data (data resp)))
     \<and> row (pagination (data resp))
         = max 0 (min row_no (int (length rows) - (page_no - 1) * row_no))
     \<and> (int (length rows) \<le> (page_no - 1) * row_no
          \<longrightarrow> page_data (data resp) = [] \<and> row (pagination (data resp)) = 0)"
proof -
  let ?start = "(page_no - 1) * row_no"
  from assms have s: "0 \<le> ?start" and l: "0 \<le> row_no" by simp_all
  have sl: "py_slice rows ?start (?start + row_no) = take (nat row_no) (drop (nat ?start) rows)"
    by (rule py_slice_page [OF s l])
  have len: "int (length (take (nat row_no) (drop (nat ?start) rows)))
      = max 0 (min row_no (int (length rows) - ?start))"
    by (rule length_page [OF s l])
  have past: "int (length rows) \<le> ?start \<Longrightarrow> take (nat row_no) (drop (nat ?start) rows) = []"
    by simp
  show ?thesis
    using assms(3) sl len past
    by (simp add: get_interactions_def paginate_def Let_def)
qed

text \<open>Page 3 of size 10 over four rows: no data, \<^verbatim>\<open>row = 0\<close>, \<^verbatim>\<open>total = 4\<close>.\<close>

theorem pagination_slice_witness:
  "(1::int) \<le> 3 \<and> (1::int) \<le> 10
   \<and> (\<exists>rows. assembled_rows demo_env demo_payload = Inr rows \<and> length rows = 4)
   \<and> (\<exists>resp. get_interactions demo_env demo_payload 3 10 = Inr resp
         \<and> total (pagination (data resp)) = 4
         \<and> page_data (data resp) = []
         \<and> row (pagination (data resp)) = 0)"
proof -
  obtain rows :: "(string list, string) contrast_item list"
    where ar: "assembled_rows demo_env demo_payload = Inr rows"
    and l: "map ref_id rows = [''u'', ''uu'', ''uuu'', ''uuuu'']"
    using demo_rows by auto
  from l have len: "length rows = 4"
    using length_map [of ref_id rows] by simp
  have p: "(1::int) \<le> 3" and r: "(1::int) \<le> 10" by simp_all
  from pagination_slice [OF p r ar] len ar show ?thesis
    by auto
qed

section \<open>The envelope\<close>

lemma resolve_history_names_Inl_iff:
  "resolve_history_names E payload = Inl err
     \<longleftrightarrow> names_to_resolve E (drug_histories payload) \<noteq> []
         \<and> resolve_names E (names_to_resolve E (drug_histories payload)) = Inl err"
  by (simp add: resolve_history_names_def Let_def split: sum.splits)

lemma enrich_payload_Inl_iff:
  "enrich_payload E dm p = Inl err
     \<longleftrightarrow> enrich_items E dm (drug_currents p) = Inl err
         \<or> (\<exists>cs. enrich_items E dm (drug_currents p) = Inr cs
               \<and> enrich_items E dm (drug_histories p) = Inl err)"
  by (simp add: enrich_payload_def split: sum.splits)

lemma assembled_rows_Inl_iff:
  "assembled_rows E payload = Inl err \<longleftrightarrow> request_call_raises E payload err"
proof (cases "resolve_history_names E payload")
  case (Inl e)
  then show ?thesis
    using resolve_history_names_Inl_iff [of E payload e]
    by (auto simp: assembled_rows_def prepare_def request_call_raises_def)
next
  case p1: (Inr p1)
  then have n: "\<not> (names_to_resolve E (drug_histories payload) \<noteq> []
         \<and> resolve_names E (names_to_resolve E (drug_histories payload)) = Inl err)"
    using resolve_history_names_Inl_iff [of E payload err] by simp
  show ?thesis
  proof (cases "query_details E (all_codes E p1)")
    case (Inl e)
    with p1 n show ?thesis
      by (auto simp: assembled_rows_def prepare_def request_call_raises_def)
  next
    case dm: (Inr detail_map)
    show ?thesis
    proof (cases "enrich_payload E detail_map p1")
      case (Inl e)
      with p1 n dm show ?thesis
        using enrich_payload_Inl_iff [of E detail_map p1 err]
          enrich_payload_Inl_iff [of E detail_map p1 e]
        by (auto simp: assembled_rows_def prepare_def request_call_raises_def)
    next
      case p2: (Inr p2)
      then have ne: "\<not> (enrich_items E detail_map (drug_currents p1) = Inl err
         \<or> (\<exists>cs. enrich_items E detail_map (drug_currents p1) = Inr cs
               \<and> enrich_items E detail_map (drug_histories p1) = Inl err))"
        using enrich_payload_Inl_iff [of E detail_map p1 err] by simp
      show ?thesis
      proof (cases "fetch_external_status E (all_tpu_codes p2)")
        case (Inl e)
        with p1 n dm p2 ne show ?thesis
          by (auto simp: assembled_rows_def prepare_def request_call_raises_def)
      next
        case m: (Inr external_status_map)
        with p1 n dm p2 ne show ?thesis
          by (auto simp: assembled_rows_def prepare_def request_call_raises_def Let_def
                split: sum.splits)
      qed
    qed
  qed
qed

text \<open>
  Claim C10: when no store call that the request makes raises, the call returns an envelope
  with \<^verbatim>\<open>status = True\<close>, \<^verbatim>\<open>code = 200\<close> and \<^verbatim>\<open>message = "get success"\<close>, for any
  payload, page and page size; every envelope the call returns has these three fields; and
  the call fails with \<open>err\<close> exactly when one of the calls it makes raises \<open>err\<close>.
\<close>

theorem envelope_always_success:
  "((\<forall>err. \<not> request_call_raises E payload err)
      \<longrightarrow> (\<exists>resp. get_interactions E payload page_no row_no = Inr resp
             \<and> status resp = True \<and> code resp = 200 \<and> message resp = ''get success''))
   \<and> (\<forall>resp. get_interactions E payload page_no row_no = Inr resp
         \<longrightarrow> status resp = True \<and> code resp = 200 \<and> message resp = ''get success'')
   \<and> (\<forall>err. get_interactions E payload page_no row_no = Inl err
         \<longleftrightarrow> request_call_raises E payload err)"
proof (cases "assembled_rows E payload")
  case (Inl e)
  then have "request_call_raises E payload e"
    by (simp add: assembled_rows_Inl_iff [symmetric])
  moreover have "\<And>err. get_interactions E payload page_no row_no = Inl err
         \<longleftrightarrow> request_call_raises E payload err"
    using Inl by (simp add: get_interactions_def assembled_rows_Inl_iff [symmetric])
  moreover have "\<And>resp. get_interactions E payload page_no row_no \<noteq> Inr resp"
    using Inl by (simp add: get_interactions_def)
  ultimately show ?thesis by blast
next
  case (Inr rows)
  then have a: "\<And>err. \<not> request_call_raises E payload err"
    by (simp add: assembled_rows_Inl_iff [symmetric])
  have b: "get_interactions E payload page_no row_no = Inr (paginate rows page_no row_no)"
    using Inr by (simp add: get_interactions_def)
  have c: "status (paginate rows page_no row_no) = True
      \<and> code (paginate rows page_no row_no) = 200
      \<and> message (paginate rows page_no row_no) = ''get success''"
    by (simp add: paginate_def Let_def)
  from a b c show ?thesis by auto
qed

text \<open>
  A page past the end gives empty data in a success envelope; with the contrast lookup out
  of service the call fails with the store's error.
\<close>

theorem envelope_always_success_witness:
  "(\<exists>resp. get_interactions demo_env demo_payload 3 10 = Inr resp
      \<and> status resp = True \<and> code resp = 200 \<and> message resp = ''get success''
      \<and> page_data (data resp) = [])
   \<and> get_interactions failing_env demo_payload 1 10 = Inl (StoreError ''down'')
   \<and> request_call_raises failing_env demo_payload (StoreError ''down'')"
proof -
  have ok: "\<exists>resp. get_interactions demo_env demo_payload 3 10 = Inr resp \<and> page_data (data resp) = []"
    by (simp add: demo_defs model_defs)
  then have "\<forall>err. get_interactions demo_env demo_payload 3 10 \<noteq> Inl err"
    by auto
  with envelope_always_success [of demo_env demo_payload 3 10]
  have none: "\<forall>err. \<not> request_call_raises demo_env demo_payload err"
    by blast
  with envelope_always_success [of demo_env demo_payload 3 10]
  have "\<exists>resp. get_interactions demo_env demo_payload 3 10 = Inr resp
      \<and> status resp = True \<and> code resp = 200 \<and> message resp = ''get success''"
    by blast
  with ok have 1: "\<exists>resp. get_interactions demo_env demo_payload 3 10 = Inr resp
      \<and> status resp = True \<and> code resp = 200 \<and> message resp = ''get success''
      \<and> page_data (data resp) = []"
    by auto
  have 2: "get_interactions failing_env demo_payload 1 10 = Inl (StoreError ''down'')"
    by (simp add: failing_env_def demo_defs model_defs)
  with envelope_always_success [of failing_env demo_payload 1 10]
  have 3: "request_call_raises failing_env demo_payload (StoreError ''down'')"
    by blast
  from 1 2 3 show ?thesis by (intro conjI)
qed

end
